theory Spec2Isabelle
  imports Main "HOL-Library.AList"
begin

section \<open>Python values, dictionaries and errors\<close>

text \<open>
  The approval records of \<^verbatim>\<open>api_handler.py\<close> are Python dictionaries whose keys appear
  and disappear at run time (\<^verbatim>\<open>approver\<close>, \<^verbatim>\<open>reminder_stopped\<close>, ...), so they are
  modelled as dictionaries, not as records: an association list in insertion order, read
  with \<^const>\<open>map_of\<close>, written with \<^const>\<open>AList.update\<close> (which keeps the position of
  an existing key and appends a new one, as Python's \<^verbatim>\<open>d[k] = v\<close> does) and shrunk with
  \<^const>\<open>AList.delete\<close> (\<^verbatim>\<open>del d[k]\<close>).  Strings are byte strings: the Chinese literals of
  the source are written as their UTF-8 bytes.
\<close>

datatype pyval = PStr string | PInt int | PBool bool | PStrList "string list"

type_synonym 'v pydict = "(string \<times> 'v) list"

datatype pyerror =
    KeyError string
  | AttributeError string
  | UnboundLocalError string
  | TypeError string
  | ValueError string

definition truthy :: "pyval \<Rightarrow> bool" where
  \<comment> \<open>Python's truth value of an object, as used by \<^verbatim>\<open>if x:\<close>.\<close>
  "truthy v = (case v of
       PStr s \<Rightarrow> s \<noteq> []
     | PInt n \<Rightarrow> n \<noteq> 0
     | PBool b \<Rightarrow> b
     | PStrList xs \<Rightarrow> xs \<noteq> [])"

definition dict_get :: "'v pydict \<Rightarrow> string \<Rightarrow> 'v \<Rightarrow> 'v" where
  \<comment> \<open>\<^verbatim>\<open>d.get(k, default)\<close>\<close>
  "dict_get d k dflt = (case map_of d k of None \<Rightarrow> dflt | Some v \<Rightarrow> v)"

text \<open>UTF-8 bytes of the source's literals: "user" (the default role of
  \<^verbatim>\<open>get_user_role\<close>), "administrator" (the default role of the web responses) and
  "approval timed out" (the comment of a timeout).\<close>

definition role_user :: string where
  "role_user = [CHR 0xE7, CHR 0x94, CHR 0xA8, CHR 0xE6, CHR 0x88, CHR 0xB7]"

definition role_admin :: string where
  "role_admin = [CHR 0xE7, CHR 0xAE, CHR 0xA1, CHR 0xE7, CHR 0x90, CHR 0x86, CHR 0xE5, CHR 0x91, CHR 0x98]"

definition timeout_comment :: string where
  "timeout_comment = [CHR 0xE5, CHR 0xAE, CHR 0xA1, CHR 0xE6, CHR 0x89, CHR 0xB9,
                      CHR 0xE8, CHR 0xB6, CHR 0x85, CHR 0xE6, CHR 0x97, CHR 0xB6]"

section \<open>The durable store (\<^verbatim>\<open>database_service.py\<close>)\<close>

text \<open>
  One row of table \<^verbatim>\<open>approvals\<close>.  \<^verbatim>\<open>create_approval\<close> inserts a row without the lock
  columns, so a fresh row has \<^verbatim>\<open>is_locked = 0\<close> (the column default) and no approver.
  The columns \<^verbatim>\<open>job\<close>, \<^verbatim>\<open>action\<close>, \<^verbatim>\<open>timeout_seconds\<close>, \<^verbatim>\<open>lock_timestamp\<close> and
  \<^verbatim>\<open>lock_timeout\<close> are left out: no function embedded here reads them.
\<close>

record db_row =
  row_project :: string
  row_env :: string
  row_build :: string
  row_version :: string
  row_desc :: string
  row_status :: string
  row_created_at :: string
  row_updated_at :: string
  row_approver :: "string option"
  row_approver_role :: "string option"
  row_comment :: "string option"
  row_is_locked :: bool

text \<open>
  The database: its rows by \<^verbatim>\<open>request_id\<close>, the rows of \<^verbatim>\<open>approval_history\<close>
  (request id, action, operator, operator role, comment, timestamp), and whether
  \<^verbatim>\<open>_get_connection\<close> succeeds.  Every method of \<^verbatim>\<open>DatabaseService\<close> wraps its body in
  \<^verbatim>\<open>try ... except Exception\<close>, so a failed connection shows as the method's failure value.
\<close>

record database =
  db_rows :: "db_row pydict"
  db_history :: "(string \<times> string \<times> string \<times> string \<times> string \<times> string) list"
  db_connected :: bool

definition get_approval :: "database \<Rightarrow> string \<Rightarrow> db_row option" where
  "get_approval db request_id =
     (if \<not> db_connected db then None else map_of (db_rows db) request_id)"

datatype update_result =
    UpdSuccess string string string string
  | UpdNotFound
  | UpdAlreadyProcessed string "string option"
  | UpdLockRequired
  | UpdSystemError

definition update_approval_status ::
  "string \<Rightarrow> database \<Rightarrow> string \<Rightarrow> string \<Rightarrow> string \<Rightarrow> string \<Rightarrow> string
     \<Rightarrow> database \<times> update_result" where
  \<comment> \<open>\<^verbatim>\<open>now_str\<close> is the formatted \<^verbatim>\<open>datetime.now()\<close> of the call.\<close>
  "update_approval_status now_str db request_id status approver approver_role comment =
     (if \<not> db_connected db then (db, UpdSystemError)
      else case map_of (db_rows db) request_id of
        None \<Rightarrow> (db, UpdNotFound)
      | Some row \<Rightarrow>
          if row_status row \<noteq> ''pending''
          then (db, UpdAlreadyProcessed (row_status row) (row_approver row))
          else if \<not> row_is_locked row \<or> row_approver row \<noteq> Some approver
          then (db, UpdLockRequired)
          else
            (db\<lparr>db_rows := AList.update request_id
                   (row\<lparr>row_status := status, row_approver := Some approver,
                        row_approver_role := Some approver_role, row_comment := Some comment,
                        row_updated_at := now_str, row_is_locked := False\<rparr>) (db_rows db),
                 db_history := db_history db @
                   [(request_id, status, approver, approver_role, comment, now_str)]\<rparr>,
             UpdSuccess status approver approver_role now_str))"

section \<open>The permission service (\<^verbatim>\<open>permission_service.py\<close>)\<close>

text \<open>
  \<^verbatim>\<open>users_config\<close> maps a user name to a dictionary (the full format) or to a role string
  (the short format).  Of a user's dictionary only the string-valued entries are modelled
  (\<^verbatim>\<open>name\<close>, \<^verbatim>\<open>role\<close>, \<^verbatim>\<open>telegram_username\<close>); the functions embedded here read no
  other.  The configuration is the loaded one: the lazy \<^verbatim>\<open>load_users()\<close> of an empty
  configuration re-reads the same file.
\<close>

datatype user_data = UserDict "string pydict" | UserRole string

record perm_config =
  users_config :: "user_data pydict"
  project_mapping :: "(string list) pydict"

definition get_user_info :: "perm_config \<Rightarrow> string \<Rightarrow> string pydict option" where
  "get_user_info cfg username =
     (case map_of (users_config cfg) username of
        None \<Rightarrow> None
      | Some (UserDict d) \<Rightarrow> Some d
      | Some (UserRole role) \<Rightarrow>
          if role \<noteq> []
          then Some [(''name'', username), (''role'', role), (''telegram_username'', username)]
          else None)"

definition get_user_role :: "perm_config \<Rightarrow> string \<Rightarrow> string" where
  "get_user_role cfg username =
     (case get_user_info cfg username of
        Some user_info \<Rightarrow> if user_info \<noteq> [] then dict_get user_info ''role'' role_user else role_user
      | None \<Rightarrow> role_user)"

section \<open>The handler's state (\<^verbatim>\<open>APIHandler\<close>)\<close>

text \<open>
  The fields of \<^verbatim>\<open>APIHandler\<close> that the approval life cycle reads and writes, and the
  global \<^verbatim>\<open>database_service\<close> (\<^verbatim>\<open>None\<close> until initialised).  An event object of
  \<^verbatim>\<open>_approval_events\<close> is its flag; of \<^verbatim>\<open>reminder_timers\<close> only the keys matter.
\<close>

record api_state =
  pending_approvals :: "pyval pydict pydict"
  approval_events :: "bool pydict"
  stopped_reminders :: "string set"
  processing_approvals :: "string set"
  reminder_timers :: "string set"
  database_service :: "database option"

text \<open>
  The second component of the pair that \<^verbatim>\<open>process_approval_internal\<close> returns.  Each
  constructor is one message of the source and carries exactly the values that the source
  interpolates into it: "being processed, do not click again"; "approval ID does not exist
  or has expired"; "this approval has already been passed, cannot repeat"; "this approval
  has already been rejected, cannot repeat"; "this approval has already been handled
  (status: S), cannot repeat"; "approval ACTION succeeded"; "approval processing failed: E".
\<close>

datatype message =
    MsgProcessing
  | MsgNotFound string
  | MsgAlreadyApproved
  | MsgAlreadyRejected
  | MsgAlreadyHandled pyval
  | MsgSuccess string
  | MsgFailed pyerror

definition cancel_reminder_timer :: "api_state \<Rightarrow> string \<Rightarrow> api_state" where
  \<comment> \<open>\<^verbatim>\<open>_cancel_reminder_timer\<close>; a \<^verbatim>\<open>KeyError\<close> is caught by its own \<^verbatim>\<open>except\<close>, which
      leaves the timer reference in place.\<close>
  "cancel_reminder_timer s approval_id =
     (let s1 = s\<lparr>stopped_reminders := insert approval_id (stopped_reminders s)\<rparr>
      in case map_of (pending_approvals s1) approval_id of
           None \<Rightarrow> s1\<lparr>reminder_timers := reminder_timers s1 - {approval_id}\<rparr>
         | Some data \<Rightarrow>
             (case map_of data ''status'' of
                None \<Rightarrow> s1
              | Some st \<Rightarrow>
                  let s2 = (if st = PStr ''pending''
                            then s1\<lparr>pending_approvals := AList.update approval_id
                                   (AList.update ''reminder_stopped'' (PBool True) data)
                                   (pending_approvals s1)\<rparr>
                            else s1)
                  in s2\<lparr>reminder_timers := reminder_timers s2 - {approval_id}\<rparr>))"

definition set_event :: "api_state \<Rightarrow> string \<Rightarrow> api_state" where
  \<comment> \<open>\<^verbatim>\<open>if approval_id in self._approval_events: self._approval_events[approval_id].set()\<close>\<close>
  "set_event s approval_id =
     (case map_of (approval_events s) approval_id of
        None \<Rightarrow> s
      | Some _ \<Rightarrow> s\<lparr>approval_events := AList.update approval_id True (approval_events s)\<rparr>)"

definition process_approval_internal ::
  "perm_config \<Rightarrow> string \<Rightarrow> api_state \<Rightarrow> string \<Rightarrow> string \<Rightarrow> string \<Rightarrow> string \<Rightarrow> string
     \<Rightarrow> api_state \<times> bool \<times> message" where
  \<comment> \<open>\<^verbatim>\<open>current_time\<close> is \<^verbatim>\<open>datetime.now().isoformat()\<close> of the call.  The \<^verbatim>\<open>finally\<close>
      clause removes the in-progress mark on every path that set it.  A missing event
      object is replaced by a fresh one that is already set.\<close>
  "process_approval_internal cfg current_time s approval_id action approver_id
       approver_username comment =
     (if approval_id \<in> processing_approvals s then (s, False, MsgProcessing)
      else
        let s1 = cancel_reminder_timer
                   (s\<lparr>processing_approvals := insert approval_id (processing_approvals s)\<rparr>)
                   approval_id;
            finally = (\<lambda>t. t\<lparr>processing_approvals := processing_approvals t - {approval_id}\<rparr>)
        in case map_of (pending_approvals s1) approval_id of
             None \<Rightarrow> (finally s1, False, MsgNotFound approval_id)
           | Some data \<Rightarrow>
               (case map_of data ''status'' of
                  None \<Rightarrow> (finally s1, False, MsgFailed (KeyError ''status''))
                | Some current_status \<Rightarrow>
                    if current_status \<noteq> PStr ''pending'' then
                      (finally s1, False,
                       if current_status = PStr ''approved'' then MsgAlreadyApproved
                       else if current_status = PStr ''rejected'' then MsgAlreadyRejected
                       else MsgAlreadyHandled current_status)
                    else
                      let approver_role = get_user_role cfg approver_username;
                          final_status =
                            (if action = ''approve'' then ''approved''
                             else if action = ''reject'' then ''rejected''
                             else if action \<in> {''approved'', ''rejected''} then action
                             else action @ ''d'');
                          data' =
                            AList.update ''reminder_stopped'' (PBool True)
                             (AList.update ''updated_at'' (PStr current_time)
                              (AList.update ''comment'' (PStr comment)
                               (AList.update ''approver_role'' (PStr approver_role)
                                (AList.update ''approver'' (PStr approver_username)
                                 (AList.update ''status'' (PStr final_status) data)))));
                          s2 = s1\<lparr>pending_approvals :=
                                   AList.update approval_id data' (pending_approvals s1),
                                 approval_events :=
                                   AList.update approval_id True (approval_events s1)\<rparr>
                      in (finally s2, True, MsgSuccess action)))"

definition timeout_handler :: "string \<Rightarrow> api_state \<Rightarrow> string \<Rightarrow> api_state" where
  \<comment> \<open>The body of \<^verbatim>\<open>timeout_handler\<close> after its \<^verbatim>\<open>time.sleep\<close>; \<^verbatim>\<open>now\<close> is
      \<^verbatim>\<open>datetime.now().isoformat()\<close>.  A \<^verbatim>\<open>KeyError\<close> ends the thread with no write.\<close>
  "timeout_handler now s approval_id =
     (case map_of (pending_approvals s) approval_id of
        None \<Rightarrow> s
      | Some data \<Rightarrow>
          (case map_of data ''status'' of
             None \<Rightarrow> s
           | Some st \<Rightarrow>
               if st = PStr ''pending'' then
                 let data' =
                       AList.update ''updated_at'' (PStr now)
                        (AList.update ''comment'' (PStr timeout_comment)
                         (AList.update ''approver_role'' (PStr ''system'')
                          (AList.update ''approver'' (PStr ''system'')
                           (AList.update ''status'' (PStr ''timeout'') data))));
                     s1 = s\<lparr>pending_approvals :=
                              AList.update approval_id data' (pending_approvals s)\<rparr>
                 in cancel_reminder_timer (set_event s1 approval_id) approval_id
               else s))"

definition field_of :: "api_state \<Rightarrow> string \<Rightarrow> string \<Rightarrow> pyval option" where
  \<comment> \<open>\<^verbatim>\<open>self.pending_approvals[approval_id][key]\<close>, \<^verbatim>\<open>None\<close> where the source has no
      such record or no such key.\<close>
  "field_of s approval_id key =
     (case map_of (pending_approvals s) approval_id of
        None \<Rightarrow> None
      | Some data \<Rightarrow> map_of data key)"

definition durable_status :: "api_state \<Rightarrow> string \<Rightarrow> string option" where
  \<comment> \<open>The status that \<^verbatim>\<open>self.database_service.get_approval(approval_id)\<close> shows.\<close>
  "durable_status s approval_id =
     (case database_service s of
        None \<Rightarrow> None
      | Some db \<Rightarrow> map_option row_status (get_approval db approval_id))"

definition error_text :: "pyerror \<Rightarrow> string" where
  \<comment> \<open>The argument of the exception, which \<^verbatim>\<open>str(e)\<close> shows.\<close>
  "error_text e = (case e of
       KeyError k \<Rightarrow> k
     | AttributeError a \<Rightarrow> a
     | UnboundLocalError v \<Rightarrow> v
     | TypeError t \<Rightarrow> t
     | ValueError v \<Rightarrow> v)"

definition message_values :: "message \<Rightarrow> pyval list" where
  \<comment> \<open>The values that the source interpolates into a message; the rest of its text is
      a literal.\<close>
  "message_values m = (case m of
       MsgProcessing \<Rightarrow> []
     | MsgNotFound approval_id \<Rightarrow> [PStr approval_id]
     | MsgAlreadyApproved \<Rightarrow> []
     | MsgAlreadyRejected \<Rightarrow> []
     | MsgAlreadyHandled st \<Rightarrow> [st]
     | MsgSuccess action \<Rightarrow> [PStr action]
     | MsgFailed e \<Rightarrow> [PStr (error_text e)])"

text \<open>The three components of the result of \<^const>\<open>process_approval_internal\<close>.\<close>

definition submit_state ::
  "perm_config \<Rightarrow> string \<Rightarrow> api_state \<Rightarrow> string \<Rightarrow> string \<Rightarrow> string \<Rightarrow> string \<Rightarrow> string
     \<Rightarrow> api_state" where
  "submit_state cfg now s approval_id action approver_id approver_username comment =
     fst (process_approval_internal cfg now s approval_id action approver_id
            approver_username comment)"

definition submit_ok ::
  "perm_config \<Rightarrow> string \<Rightarrow> api_state \<Rightarrow> string \<Rightarrow> string \<Rightarrow> string \<Rightarrow> string \<Rightarrow> string
     \<Rightarrow> bool" where
  "submit_ok cfg now s approval_id action approver_id approver_username comment =
     fst (snd (process_approval_internal cfg now s approval_id action approver_id
                 approver_username comment))"

definition submit_msg ::
  "perm_config \<Rightarrow> string \<Rightarrow> api_state \<Rightarrow> string \<Rightarrow> string \<Rightarrow> string \<Rightarrow> string \<Rightarrow> string
     \<Rightarrow> message" where
  "submit_msg cfg now s approval_id action approver_id approver_username comment =
     snd (snd (process_approval_internal cfg now s approval_id action approver_id
                 approver_username comment))"

definition is_already_processed :: "message \<Rightarrow> bool" where
  "is_already_processed m = (case m of
       MsgAlreadyApproved \<Rightarrow> True
     | MsgAlreadyRejected \<Rightarrow> True
     | MsgAlreadyHandled _ \<Rightarrow> True
     | _ \<Rightarrow> False)"

definition decided ::
  "perm_config \<Rightarrow> string \<Rightarrow> string \<Rightarrow> string \<Rightarrow> string \<Rightarrow> pyval pydict \<Rightarrow> pyval pydict" where
  \<comment> \<open>The record that a successful \<^const>\<open>process_approval_internal\<close> leaves: the mark
      of \<^const>\<open>cancel_reminder_timer\<close>, then the six assignments of step 3.\<close>
  "decided cfg now action approver_username comment data =
     AList.update ''reminder_stopped'' (PBool True)
      (AList.update ''updated_at'' (PStr now)
       (AList.update ''comment'' (PStr comment)
        (AList.update ''approver_role'' (PStr (get_user_role cfg approver_username))
         (AList.update ''approver'' (PStr approver_username)
          (AList.update ''status''
             (PStr (if action = ''approve'' then ''approved''
                    else if action = ''reject'' then ''rejected''
                    else if action \<in> {''approved'', ''rejected''} then action
                    else action @ ''d''))
             (AList.update ''reminder_stopped'' (PBool True) data))))))"

section \<open>A running example\<close>

text \<open>
  One approval as \<^verbatim>\<open>approval_wait\<close> creates it: the record with its fourteen keys, its
  event object, its reminder thread, and the row that \<^verbatim>\<open>create_approval\<close> inserted
  (unlocked, no approver, one history entry "create approval request").
\<close>

definition ex_id :: string where
  "ex_id = ''approval-shop-prod-7-1700000000''"

definition ex_cfg :: perm_config where
  "ex_cfg = \<lparr>users_config = [(''alice'', UserRole ''ops''), (''bob'', UserRole ''dev'')],
             project_mapping = [(''shop'', [''alice'', ''bob''])]\<rparr>"

definition ex_data :: "pyval pydict" where
  "ex_data =
     [(''approval_id'', PStr ex_id), (''project'', PStr ''shop''), (''env'', PStr ''prod''),
      (''build'', PStr ''7''), (''version'', PStr ''1.4.2''), (''job'', PStr ''shop-deploy''),
      (''desc'', PStr ''release''), (''action'', PStr ''deploy''),
      (''project_owners'', PStrList [''alice'', ''bob'']), (''timeout_minutes'', PInt 1),
      (''status'', PStr ''pending''), (''created_at'', PStr ''2023-11-14T22:13:20.000100''),
      (''expires_at'', PStr ''2023-11-14T22:14:20.000120''), (''reminder_count'', PInt 0)]"

definition ex_row :: db_row where
  "ex_row = \<lparr>row_project = ''shop'', row_env = ''prod'', row_build = ''7'',
             row_version = ''1.4.2'', row_desc = ''release'', row_status = ''pending'',
             row_created_at = ''2023-11-14T22:13:20.000050'',
             row_updated_at = ''2023-11-14T22:13:20.000050'',
             row_approver = None, row_approver_role = None, row_comment = None,
             row_is_locked = False\<rparr>"

definition ex_db :: database where
  "ex_db = \<lparr>db_rows = [(ex_id, ex_row)],
            db_history = [(ex_id, ''created'', ''system'', ''system'',
               [CHR 0xE5, CHR 0x88, CHR 0x9B, CHR 0xE5, CHR 0xBB, CHR 0xBA, CHR 0xE5, CHR 0xAE,
                CHR 0xA1, CHR 0xE6, CHR 0x89, CHR 0xB9, CHR 0xE8, CHR 0xAF, CHR 0xB7, CHR 0xE6,
                CHR 0xB1, CHR 0x82], ''2023-11-14 22:13:20'')],
            db_connected = True\<rparr>"

definition ex_state :: api_state where
  "ex_state = \<lparr>pending_approvals = [(ex_id, ex_data)], approval_events = [(ex_id, False)],
               stopped_reminders = {}, processing_approvals = {}, reminder_timers = {ex_id},
               database_service = Some ex_db\<rparr>"

definition ex_approved :: api_state where
  \<comment> \<open>The example after alice's approval through the web endpoint.\<close>
  "ex_approved = submit_state ex_cfg ''2023-11-14T22:14:19.500000'' ex_state ex_id
                   ''approved'' ''web_user'' ''alice'' ''ok''"

definition ex_db_expired :: database where
  \<comment> \<open>The example's database after \<^verbatim>\<open>cleanup_expired_approvals\<close> marked the row.\<close>
  "ex_db_expired = ex_db\<lparr>db_rows := [(ex_id, ex_row\<lparr>row_status := ''timeout''\<rparr>)]\<rparr>"

section \<open>The blocking wait of \<^verbatim>\<open>approval_wait\<close>\<close>

text \<open>
  While the waiter blocks, other threads run.  What they do to the handler's state during
  one blocking call is a list of the operations above; a schedule gives that list for each
  iteration of the wait loop.
\<close>

datatype env_action =
    Submit string string string string string string
  | TimeoutFires string string
  | CancelReminder string

fun apply_env :: "perm_config \<Rightarrow> env_action \<Rightarrow> api_state \<Rightarrow> api_state" where
  "apply_env cfg (Submit now approval_id action approver_id approver_username comment) s =
     fst (process_approval_internal cfg now s approval_id action approver_id
            approver_username comment)"
| "apply_env cfg (TimeoutFires now approval_id) s = timeout_handler now s approval_id"
| "apply_env cfg (CancelReminder approval_id) s = cancel_reminder_timer s approval_id"

definition run_env :: "perm_config \<Rightarrow> env_action list \<Rightarrow> api_state \<Rightarrow> api_state" where
  "run_env cfg acts s = fold (apply_env cfg) acts s"

text \<open>
  The JSON answers of the wait: the decision found in memory (result, approver, role,
  comment, update time, seconds waited), the timeout, the decision found in the durable
  store after the loop, and the error answer of the outer \<^verbatim>\<open>except\<close>.
\<close>

datatype wait_response =
    WaitDecision pyval pyval pyval pyval pyval nat
  | WaitTimeout nat
  | WaitLastMoment string "string option" "string option" "string option" string nat
  | WaitError pyerror

definition waited_of :: "wait_response \<Rightarrow> nat option" where
  \<comment> \<open>\<^verbatim>\<open>waited_seconds\<close> of an answer; the error answer has none.\<close>
  "waited_of r = (case r of
       WaitDecision _ _ _ _ _ w \<Rightarrow> Some w
     | WaitTimeout w \<Rightarrow> Some w
     | WaitLastMoment _ _ _ _ _ w \<Rightarrow> Some w
     | WaitError _ \<Rightarrow> None)"

definition wait_for_event :: "perm_config \<Rightarrow> env_action list \<Rightarrow> string \<Rightarrow> api_state \<Rightarrow> api_state" where
  \<comment> \<open>The blocking part of one iteration: an event that is already set is cleared without
      waiting; otherwise the waiter blocks for one interval on the event (or sleeps when
      there is none), the other threads run, and a set event is cleared.  The second
      \<^verbatim>\<open>time.sleep\<close> of the source (no event object, status pending) changes no state.\<close>
  "wait_for_event cfg acts approval_id s =
     (case map_of (approval_events s) approval_id of
        Some flag \<Rightarrow>
          if flag
          then run_env cfg acts
                 (s\<lparr>approval_events := AList.update approval_id False (approval_events s)\<rparr>)
          else
            let s' = run_env cfg acts s
            in if map_of (approval_events s') approval_id = Some True
               then s'\<lparr>approval_events := AList.update approval_id False (approval_events s')\<rparr>
               else s'
      | None \<Rightarrow> run_env cfg acts s)"

definition wait_iteration ::
  "perm_config \<Rightarrow> string \<Rightarrow> env_action list \<Rightarrow> string \<Rightarrow> nat \<Rightarrow> api_state
     \<Rightarrow> api_state \<times> wait_response option" where
  \<comment> \<open>The body of \<^verbatim>\<open>while waited < max_wait_seconds\<close>; \<^verbatim>\<open>Some\<close> is its \<^verbatim>\<open>return\<close>.  A
      \<^verbatim>\<open>KeyError\<close> goes to the loop's \<^verbatim>\<open>except\<close>, which sleeps one interval.\<close>
  "wait_iteration cfg now acts approval_id waited s =
     (case map_of (pending_approvals s) approval_id of
        None \<Rightarrow> (wait_for_event cfg acts approval_id s, None)
      | Some approval_data \<Rightarrow>
          (case map_of approval_data ''status'' of
             None \<Rightarrow> (run_env cfg acts s, None)
           | Some memory_status \<Rightarrow>
               if truthy memory_status \<and> memory_status \<noteq> PStr ''pending''
               then (cancel_reminder_timer s approval_id,
                     Some (WaitDecision memory_status
                             (dict_get approval_data ''approver'' (PStr ''unknown''))
                             (dict_get approval_data ''approver_role'' (PStr role_admin))
                             (dict_get approval_data ''comment'' (PStr []))
                             (dict_get approval_data ''updated_at'' (PStr now))
                             waited))
               else (wait_for_event cfg acts approval_id s, None)))"

definition wait_timeout :: "string \<Rightarrow> string \<Rightarrow> nat \<Rightarrow> api_state \<Rightarrow> api_state \<times> wait_response" where
  \<comment> \<open>The code after the loop.  The event entry is deleted at once: in the source the
      \<^verbatim>\<open>if\<close> stands after the body of \<^verbatim>\<open>delayed_cleanup\<close>, not inside it.\<close>
  "wait_timeout now_str approval_id waited s =
     (let s1 = cancel_reminder_timer s approval_id
      in case database_service s1 of
           None \<Rightarrow> (s1, WaitError (AttributeError ''get_approval''))
         | Some db \<Rightarrow>
             (case get_approval db approval_id of
                None \<Rightarrow> (s1, WaitTimeout waited)
              | Some approval_request \<Rightarrow>
                  if row_status approval_request = ''pending'' then
                    let db' = fst (update_approval_status now_str db approval_id
                                     ''timeout'' ''system'' ''system'' timeout_comment);
                        s2 = s1\<lparr>database_service := Some db'\<rparr>
                    in (case map_of (pending_approvals s2) approval_id of
                          None \<Rightarrow> (s2, WaitTimeout waited)
                        | Some data \<Rightarrow>
                            (set_event
                               (s2\<lparr>pending_approvals := AList.update approval_id
                                      (AList.update ''status'' (PStr ''timeout'') data)
                                      (pending_approvals s2)\<rparr>) approval_id,
                             WaitTimeout waited))
                  else
                    let s2 = (case map_of (pending_approvals s1) approval_id of
                                None \<Rightarrow> s1
                              | Some data \<Rightarrow>
                                  s1\<lparr>pending_approvals := AList.update approval_id
                                        (AList.update ''status''
                                           (PStr (row_status approval_request)) data)
                                        (pending_approvals s1)\<rparr>)
                    in (s2\<lparr>approval_events := AList.delete approval_id (approval_events s2)\<rparr>,
                        WaitLastMoment (row_status approval_request)
                          (row_approver approval_request) (row_approver_role approval_request)
                          (row_comment approval_request) (row_updated_at approval_request)
                          waited)))"

function wait_loop ::
  "perm_config \<Rightarrow> (nat \<Rightarrow> string) \<Rightarrow> (nat \<Rightarrow> env_action list) \<Rightarrow> string \<Rightarrow> int \<Rightarrow> nat
     \<Rightarrow> api_state \<Rightarrow> api_state \<times> wait_response" where
  \<comment> \<open>\<^verbatim>\<open>waited\<close> counts intervals of \<^verbatim>\<open>check_interval = 1.0\<close> seconds; \<^verbatim>\<open>clock k\<close> is
      the waiter's \<^verbatim>\<open>datetime.now()\<close> in iteration \<^verbatim>\<open>k\<close>, \<^verbatim>\<open>sched k\<close> what the other threads
      do while it blocks there.\<close>
  "wait_loop cfg clock sched approval_id max_wait_seconds waited s =
     (if int waited < max_wait_seconds then
        (let r = wait_iteration cfg (clock waited) (sched waited) approval_id waited s
         in case snd r of
              Some response \<Rightarrow> (fst r, response)
            | None \<Rightarrow> wait_loop cfg clock sched approval_id max_wait_seconds (waited + 1) (fst r))
      else wait_timeout (clock waited) approval_id waited s)"
  by pat_completeness auto
termination
  by (relation "measure (\<lambda>(cfg, clock, sched, approval_id, max_wait_seconds, waited, s).
        nat (max_wait_seconds - int waited))") auto

declare wait_loop.simps [simp del]

definition ex_last_slice :: "nat \<Rightarrow> env_action list" where
  \<comment> \<open>Nothing happens for 59 seconds; alice approves during the 60th.\<close>
  "ex_last_slice k =
     (if k = 59 then [Submit ''2023-11-14T22:14:19.500000'' ex_id ''approved'' ''web_user''
                        ''alice'' ''ok'']
      else [])"

definition ex_clock :: "nat \<Rightarrow> string" where
  "ex_clock k = ''2023-11-14T22:14:20.000000''"

definition ex_idle :: "nat \<Rightarrow> env_action list" where
  \<comment> \<open>No other thread touches the approval.\<close>
  "ex_idle k = []"

section \<open>Project owners (\<^verbatim>\<open>get_project_owners\<close>)\<close>

fun py_in :: "string \<Rightarrow> string \<Rightarrow> bool" where
  \<comment> \<open>\<^verbatim>\<open>a in b\<close> on strings: \<^verbatim>\<open>a\<close> occurs in \<^verbatim>\<open>b\<close>.\<close>
  "py_in xs [] = (xs = [])"
| "py_in xs (y # ys) = (take (length xs) (y # ys) = xs \<or> py_in xs ys)"

definition get_project_owners :: "(string \<Rightarrow> string) \<Rightarrow> perm_config \<Rightarrow> pyval \<Rightarrow> string list" where
  \<comment> \<open>\<^verbatim>\<open>lower\<close> is Python's \<^verbatim>\<open>str.lower\<close>.  A project name that is not a string raises
      inside the \<^verbatim>\<open>try\<close> (or finds nothing in an empty mapping); both ways end with the
      first two configured users.\<close>
  "get_project_owners lower cfg project_name =
     (case project_name of
        PStr p \<Rightarrow>
          (case map_of (project_mapping cfg) p of
             Some owners \<Rightarrow> owners
           | None \<Rightarrow>
               (case List.find (\<lambda>(proj_key, owners).
                         py_in (lower proj_key) (lower p) \<or> py_in (lower p) (lower proj_key))
                       (project_mapping cfg) of
                  Some (proj_key, owners) \<Rightarrow> owners
                | None \<Rightarrow> dict_get (project_mapping cfg) ''default''
                            (take 2 (map fst (users_config cfg)))))
      | _ \<Rightarrow> take 2 (map fst (users_config cfg)))"

section \<open>The reminder thread (\<^verbatim>\<open>_start_reminder_timer\<close>)\<close>

text \<open>
  \<^verbatim>\<open>reminder_task\<close> writes nothing to the handler's state or to the database: it sleeps,
  reads, and calls the notifier.  So it is a function of what it reads: \<open>obs t\<close> is the
  state that the thread finds at its \<open>t\<close>-th wake, whatever the other threads did before.
  A wake is one step: the checks that the thread makes between two sleeps, and the
  reminder that may follow them, read that one state.
  Its result is the list of reminders handed to \<^verbatim>\<open>_send_reminder_notification\<close> and the
  way the thread ended: by \<^verbatim>\<open>return\<close> or the end of the function, or by an exception that
  nothing catches.
\<close>

record reminder =
  rem_approval_id :: string
  rem_project :: string
  rem_env :: string
  rem_build :: string
  rem_version :: string
  rem_desc :: string
  rem_project_owners :: "string list"
  rem_count :: nat

datatype task_end = Exited | Crashed pyerror

definition stop_requested :: "api_state \<Rightarrow> string \<Rightarrow> pyerror + bool" where
  \<comment> \<open>The three in-memory checks that the thread makes after every sleep, in their order:
      the stop set, a status other than \<open>pending\<close>, the stop mark of the record.\<close>
  "stop_requested s approval_id =
     (if approval_id \<in> stopped_reminders s then Inr True
      else case map_of (pending_approvals s) approval_id of
             None \<Rightarrow> Inr False
           | Some data \<Rightarrow>
               (case map_of data ''status'' of
                  None \<Rightarrow> Inl (KeyError ''status'')
                | Some st \<Rightarrow>
                    if st \<noteq> PStr ''pending'' then Inr True
                    else Inr (truthy (dict_get data ''reminder_stopped'' (PBool False)))))"

definition db_says_resolved :: "api_state \<Rightarrow> string \<Rightarrow> bool" where
  \<comment> \<open>The database check of the first wait: \<^verbatim>\<open>db_approval and db_approval.status !=
      'pending'\<close>, with \<^verbatim>\<open>except: pass\<close> around it.\<close>
  "db_says_resolved s approval_id =
     (case database_service s of
        None \<Rightarrow> False
      | Some db \<Rightarrow>
          (case get_approval db approval_id of
             None \<Rightarrow> False
           | Some db_approval \<Rightarrow> row_status db_approval \<noteq> ''pending''))"

fun first_wait :: "(nat \<Rightarrow> api_state) \<Rightarrow> string \<Rightarrow> nat list \<Rightarrow> task_end option" where
  \<comment> \<open>\<^verbatim>\<open>for i in range(600)\<close>, half a second each; \<open>None\<close> when the loop runs out.  The
      wake of round \<open>i\<close> reads \<open>obs i\<close>.\<close>
  "first_wait obs approval_id [] = None"
| "first_wait obs approval_id (i # rest) =
     (case stop_requested (obs i) approval_id of
        Inl e \<Rightarrow> Some (Crashed e)
      | Inr stop \<Rightarrow>
          if stop then Some Exited
          else if i mod 20 = 0 \<and> db_says_resolved (obs i) approval_id then Some Exited
          else first_wait obs approval_id rest)"

fun interval_wait :: "(nat \<Rightarrow> api_state) \<Rightarrow> string \<Rightarrow> nat \<Rightarrow> nat list \<Rightarrow> task_end + nat" where
  \<comment> \<open>\<^verbatim>\<open>for i in range(150)\<close>, two seconds each, from wake \<open>t\<close> on; \<open>Inr\<close> is the number of
      the next wake when the loop runs out.\<close>
  "interval_wait obs approval_id t [] = Inr t"
| "interval_wait obs approval_id t (i # rest) =
     (case stop_requested (obs t) approval_id of
        Inl e \<Rightarrow> Inl (Crashed e)
      | Inr stop \<Rightarrow>
          if stop then Inl Exited
          else interval_wait obs approval_id (Suc t) rest)"

datatype db_check = DbReturn | DbContinue "db_row option"

definition check_database :: "api_state \<Rightarrow> string \<Rightarrow> db_row option \<Rightarrow> db_check" where
  \<comment> \<open>Check 4 of the main loop.  \<^verbatim>\<open>approval_request\<close> is a local variable of the thread,
      unbound (\<open>None\<close>) until the first assignment; when the call raises (the service is
      \<^verbatim>\<open>None\<close>), the \<^verbatim>\<open>except\<close> logs and the variable keeps what it had.\<close>
  "check_database s approval_id approval_request =
     (case database_service s of
        None \<Rightarrow> DbContinue approval_request
      | Some db \<Rightarrow>
          (case get_approval db approval_id of
             None \<Rightarrow> DbReturn
           | Some row \<Rightarrow>
               if row_status row \<noteq> ''pending'' then DbReturn else DbContinue (Some row)))"

function reminder_loop ::
  "(string \<Rightarrow> string) \<Rightarrow> perm_config \<Rightarrow> (nat \<Rightarrow> api_state) \<Rightarrow> string \<Rightarrow> nat \<Rightarrow> nat
     \<Rightarrow> db_row option \<Rightarrow> reminder list \<times> task_end" where
  \<comment> \<open>\<^verbatim>\<open>while count < max_reminders\<close> with \<^verbatim>\<open>max_reminders = 6\<close>; the loop head wakes as
      number \<open>t\<close>.  Reading \<^verbatim>\<open>approval_request.project\<close> of an unbound variable raises.\<close>
  "reminder_loop lower cfg obs approval_id count t approval_request =
     (if count < 6 then
        (case stop_requested (obs t) approval_id of
           Inl e \<Rightarrow> ([], Crashed e)
         | Inr stop \<Rightarrow>
             if stop then ([], Exited)
             else
               (case check_database (obs t) approval_id approval_request of
                  DbReturn \<Rightarrow> ([], Exited)
                | DbContinue None \<Rightarrow> ([], Crashed (UnboundLocalError ''approval_request''))
                | DbContinue (Some ar) \<Rightarrow>
                    (let reminder_data =
                           \<lparr>rem_approval_id = approval_id, rem_project = row_project ar,
                            rem_env = row_env ar, rem_build = row_build ar,
                            rem_version = row_version ar, rem_desc = row_desc ar,
                            rem_project_owners =
                              get_project_owners lower cfg (PStr (row_project ar)),
                            rem_count = count + 1\<rparr>
                     in case (if count + 1 < 6
                              then interval_wait obs approval_id (Suc t) [0..<150]
                              else Inr (Suc t)) of
                          Inl e \<Rightarrow> ([reminder_data], e)
                        | Inr t' \<Rightarrow>
                            (let r = reminder_loop lower cfg obs approval_id (count + 1) t'
                                       (Some ar)
                             in (reminder_data # fst r, snd r)))))
      else ([], Exited))"
  by pat_completeness auto
termination
  by (relation "measure (\<lambda>(lower, cfg, obs, approval_id, count, t, approval_request).
        6 - count)") auto

declare reminder_loop.simps [simp del]

definition reminder_task ::
  "(string \<Rightarrow> string) \<Rightarrow> perm_config \<Rightarrow> (nat \<Rightarrow> api_state) \<Rightarrow> string
     \<Rightarrow> reminder list \<times> task_end" where
  "reminder_task lower cfg obs approval_id =
     (case first_wait obs approval_id [0..<600] of
        Some e \<Rightarrow> ([], e)
      | None \<Rightarrow> reminder_loop lower cfg obs approval_id 0 600 None)"

text \<open>
  The head of the main loop is not one instant.  The thread makes its three in-memory
  checks, then it asks the database (check 4), and only then it counts, builds the
  reminder and sends it; other threads run in between.  \<open>reminder_loop_split\<close> is the
  same loop with the two reads told apart: at the head that wakes as number \<open>t\<close> the
  in-memory checks read \<open>obs t\<close>, and check 4, which comes after them and before the
  send, reads \<open>db_obs t\<close>.  \<^const>\<open>reminder_loop\<close> is the case \<open>db_obs = obs\<close>, where
  nothing happens between the two reads.
\<close>

function reminder_loop_split ::
  "(string \<Rightarrow> string) \<Rightarrow> perm_config \<Rightarrow> (nat \<Rightarrow> api_state) \<Rightarrow> (nat \<Rightarrow> api_state) \<Rightarrow> string
     \<Rightarrow> nat \<Rightarrow> nat \<Rightarrow> db_row option \<Rightarrow> reminder list \<times> task_end" where
  "reminder_loop_split lower cfg obs db_obs approval_id count t approval_request =
     (if count < 6 then
        (case stop_requested (obs t) approval_id of
           Inl e \<Rightarrow> ([], Crashed e)
         | Inr stop \<Rightarrow>
             if stop then ([], Exited)
             else
               (case check_database (db_obs t) approval_id approval_request of
                  DbReturn \<Rightarrow> ([], Exited)
                | DbContinue None \<Rightarrow> ([], Crashed (UnboundLocalError ''approval_request''))
                | DbContinue (Some ar) \<Rightarrow>
                    (let reminder_data =
                           \<lparr>rem_approval_id = approval_id, rem_project = row_project ar,
                            rem_env = row_env ar, rem_build = row_build ar,
                            rem_version = row_version ar, rem_desc = row_desc ar,
                            rem_project_owners =
                              get_project_owners lower cfg (PStr (row_project ar)),
                            rem_count = count + 1\<rparr>
                     in case (if count + 1 < 6
                              then interval_wait obs approval_id (Suc t) [0..<150]
                              else Inr (Suc t)) of
                          Inl e \<Rightarrow> ([reminder_data], e)
                        | Inr t' \<Rightarrow>
                            (let r = reminder_loop_split lower cfg obs db_obs approval_id
                                       (count + 1) t' (Some ar)
                             in (reminder_data # fst r, snd r)))))
      else ([], Exited))"
  by pat_completeness auto
termination
  by (relation "measure (\<lambda>(lower, cfg, obs, db_obs, approval_id, count, t, approval_request).
        6 - count)") auto

declare reminder_loop_split.simps [simp del]

definition reminder_task_split ::
  "(string \<Rightarrow> string) \<Rightarrow> perm_config \<Rightarrow> (nat \<Rightarrow> api_state) \<Rightarrow> (nat \<Rightarrow> api_state) \<Rightarrow> string
     \<Rightarrow> reminder list \<times> task_end" where
  "reminder_task_split lower cfg obs db_obs approval_id =
     (case first_wait obs approval_id [0..<600] of
        Some e \<Rightarrow> ([], e)
      | None \<Rightarrow> reminder_loop_split lower cfg obs db_obs approval_id 0 600 None)"

definition still_pending :: "api_state \<Rightarrow> string \<Rightarrow> bool" where
  \<comment> \<open>No decision and no cancellation is visible: the in-memory checks find nothing
      and the database shows the row as pending.\<close>
  "still_pending s approval_id =
     (stop_requested s approval_id = Inr False \<and> durable_status s approval_id = Some ''pending'')"

definition reminder_of ::
  "(string \<Rightarrow> string) \<Rightarrow> perm_config \<Rightarrow> string \<Rightarrow> db_row \<Rightarrow> nat \<Rightarrow> reminder" where
  \<comment> \<open>The \<^verbatim>\<open>reminder_data\<close> built from a database row for the \<open>n\<close>-th reminder.\<close>
  "reminder_of lower cfg approval_id row n =
     \<lparr>rem_approval_id = approval_id, rem_project = row_project row, rem_env = row_env row,
      rem_build = row_build row, rem_version = row_version row, rem_desc = row_desc row,
      rem_project_owners = get_project_owners lower cfg (PStr (row_project row)),
      rem_count = n\<rparr>"

definition ascii_lower :: "string \<Rightarrow> string" where
  \<comment> \<open>\<^verbatim>\<open>str.lower\<close> on ASCII text, for the examples.\<close>
  "ascii_lower =
     map (\<lambda>c. case map_of (zip ''ABCDEFGHIJKLMNOPQRSTUVWXYZ'' ''abcdefghijklmnopqrstuvwxyz'') c of
                Some l \<Rightarrow> l
              | None \<Rightarrow> c)"

definition ex_outage :: api_state where
  \<comment> \<open>The example while the database cannot be reached.\<close>
  "ex_outage = ex_state\<lparr>database_service := Some (ex_db\<lparr>db_connected := False\<rparr>)\<rparr>"

definition ex_obs_outage :: "nat \<Rightarrow> api_state" where
  \<comment> \<open>The database is unreachable at the thread's wake number 600, the first check of
      the main loop, and reachable at every other wake; nobody decides or cancels.\<close>
  "ex_obs_outage t = (if t = 600 then ex_outage else ex_state)"

definition ex_no_service :: api_state where
  \<comment> \<open>The example with \<^verbatim>\<open>get_database_service()\<close> returning \<^verbatim>\<open>None\<close>.\<close>
  "ex_no_service = ex_state\<lparr>database_service := None\<rparr>"

text \<open>
  The example with a timeout of thirty minutes, so that it is still pending when its
  reminder thread enters the main loop, five minutes after the request.  Alice approves
  it at that moment: the thread, at the head of its main loop (wake 600), has made its
  in-memory checks and is about to ask the database.
\<close>

definition ex_data_long :: "pyval pydict" where
  "ex_data_long =
     AList.update ''timeout_minutes'' (PInt 30)
       (AList.update ''expires_at'' (PStr ''2023-11-14T22:43:20.000120'') ex_data)"

definition ex_state_long :: api_state where
  "ex_state_long = ex_state\<lparr>pending_approvals := [(ex_id, ex_data_long)]\<rparr>"

definition ex_approved_long :: api_state where
  "ex_approved_long = submit_state ex_cfg ''2023-11-14T22:18:20.300000'' ex_state_long ex_id
     ''approved'' ''web_user'' ''alice'' ''ok''"

definition ex_obs_race :: "nat \<Rightarrow> api_state" where
  \<comment> \<open>What the in-memory checks of the thread's wakes find.\<close>
  "ex_obs_race t = (if t \<le> 600 then ex_state_long else ex_approved_long)"

definition ex_db_obs_race :: "nat \<Rightarrow> api_state" where
  \<comment> \<open>What the database checks of the loop heads find.\<close>
  "ex_db_obs_race t = (if t < 600 then ex_state_long else ex_approved_long)"

section \<open>The sweep of the in-memory registry (\<^verbatim>\<open>cleanup_task\<close>)\<close>





definition evict :: "string \<Rightarrow> api_state \<Rightarrow> api_state" where
  \<comment> \<open>\<^verbatim>\<open>del self.pending_approvals[expired_id]\<close>, and the event object if there is one.\<close>
  "evict expired_id s =
     s\<lparr>pending_approvals := AList.delete expired_id (pending_approvals s),
       approval_events := AList.delete expired_id (approval_events s)\<rparr>"









section \<open>The web endpoints \<^verbatim>\<open>/api/approve/<id>\<close> and \<^verbatim>\<open>/api/reject/<id>\<close>\<close>

text \<open>
  What the two handlers read of a Flask request: the query parameters, the form fields,
  and (for their console output only) the method and the caller's address.  The two
  handlers differ in the action they pass and in their default comment ("Web interface
  approval", "Web interface rejection"), so they are instances of one function.
\<close>

record request =
  req_method :: string
  req_remote_addr :: string
  req_args :: "string pydict"
  req_form :: "string pydict"

definition web_approve_comment :: string where
  "web_approve_comment = [CHR 0x57, CHR 0x65, CHR 0x62, CHR 0xE7, CHR 0x95, CHR 0x8C, CHR 0xE9,
     CHR 0x9D, CHR 0xA2, CHR 0xE5, CHR 0xAE, CHR 0xA1, CHR 0xE6, CHR 0x89, CHR 0xB9]"

definition web_reject_comment :: string where
  "web_reject_comment = [CHR 0x57, CHR 0x65, CHR 0x62, CHR 0xE7, CHR 0x95, CHR 0x8C, CHR 0xE9,
     CHR 0x9D, CHR 0xA2, CHR 0xE6, CHR 0x8B, CHR 0x92, CHR 0xE7, CHR 0xBB, CHR 0x9D]"

definition get_user_display_name :: "perm_config \<Rightarrow> string \<Rightarrow> string" where
  \<comment> \<open>The name, then the role between full-width parentheses.\<close>
  "get_user_display_name cfg username =
     (case get_user_info cfg username of
        Some user_info \<Rightarrow>
          if user_info \<noteq> []
          then dict_get user_info ''name'' username @ [CHR 0xEF, CHR 0xBC, CHR 0x88]
                 @ dict_get user_info ''role'' role_user @ [CHR 0xEF, CHR 0xBC, CHR 0x89]
          else username
      | None \<Rightarrow> username)"

definition web_approver ::
  "(string \<Rightarrow> string) \<Rightarrow> perm_config \<Rightarrow> request \<Rightarrow> string \<Rightarrow> api_state \<Rightarrow> string" where
  \<comment> \<open>\<^verbatim>\<open>request.args.get('approver', request.form.get('approver'))\<close>, and the fallback
      of \<^verbatim>\<open>if not approver_username\<close>: the first owner of the record's project.\<close>
  "web_approver lower cfg req approval_id s =
     (let supplied = (case map_of (req_args req) ''approver'' of
                        Some v \<Rightarrow> Some v
                      | None \<Rightarrow> map_of (req_form req) ''approver'');
          fallback = (case map_of (pending_approvals s) approval_id of
                        Some data \<Rightarrow>
                          (case get_project_owners lower cfg
                                  (dict_get data ''project'' (PStr ''unknown'')) of
                             owner # _ \<Rightarrow> owner
                           | [] \<Rightarrow> ''admin'')
                      | None \<Rightarrow> ''admin'')
      in case supplied of
           Some name \<Rightarrow> if name \<noteq> [] then name else fallback
         | None \<Rightarrow> fallback)"

definition web_comment :: "string \<Rightarrow> request \<Rightarrow> string" where
  \<comment> \<open>\<^verbatim>\<open>request.args.get('comment', request.form.get('comment', default))\<close>\<close>
  "web_comment default_comment req =
     (case map_of (req_args req) ''comment'' of
        Some c \<Rightarrow> c
      | None \<Rightarrow> dict_get (req_form req) ''comment'' default_comment)"

text \<open>The JSON answers: status 200 with result, approver (display name), role and comment,
  or status 400 with the message of the failed submission.\<close>

datatype web_response =
    WebOk string string string string
  | WebBadRequest message

definition web_decision ::
  "string \<Rightarrow> string \<Rightarrow> (string \<Rightarrow> string) \<Rightarrow> perm_config \<Rightarrow> string \<Rightarrow> request \<Rightarrow> string
     \<Rightarrow> api_state \<Rightarrow> api_state \<times> web_response" where
  "web_decision action default_comment lower cfg now req approval_id s =
     (let approver_username = web_approver lower cfg req approval_id s;
          comment = web_comment default_comment req;
          r = process_approval_internal cfg now s approval_id action ''web_user''
                approver_username comment
      in if fst (snd r)
         then (fst r,
               WebOk action (get_user_display_name cfg approver_username)
                 (case get_user_info cfg approver_username of
                    Some approver_info \<Rightarrow>
                      if approver_info \<noteq> [] then dict_get approver_info ''role'' role_admin
                      else role_admin
                  | None \<Rightarrow> role_admin)
                 comment)
         else (fst r, WebBadRequest (snd (snd r))))"

definition approve_request ::
  "(string \<Rightarrow> string) \<Rightarrow> perm_config \<Rightarrow> string \<Rightarrow> request \<Rightarrow> string \<Rightarrow> api_state
     \<Rightarrow> api_state \<times> web_response" where
  "approve_request = web_decision ''approved'' web_approve_comment"

definition reject_request ::
  "(string \<Rightarrow> string) \<Rightarrow> perm_config \<Rightarrow> string \<Rightarrow> request \<Rightarrow> string \<Rightarrow> api_state
     \<Rightarrow> api_state \<times> web_response" where
  "reject_request = web_decision ''rejected'' web_reject_comment"

definition is_ok :: "web_response \<Rightarrow> bool" where
  "is_ok r = (case r of WebOk _ _ _ _ \<Rightarrow> True | WebBadRequest _ \<Rightarrow> False)"

definition ex_request_mallory :: request where
  \<comment> \<open>A caller that names an approver who is in no configuration.\<close>
  "ex_request_mallory = \<lparr>req_method = ''GET'', req_remote_addr = ''203.0.113.9'',
     req_args = [(''approver'', ''mallory'')], req_form = []\<rparr>"

definition ex_request_alice :: request where
  "ex_request_alice = \<lparr>req_method = ''POST'', req_remote_addr = ''10.0.0.5'',
     req_args = [], req_form = [(''approver'', ''alice'')]\<rparr>"

definition ex_request_anonymous :: request where
  \<comment> \<open>A caller that names nobody.\<close>
  "ex_request_anonymous = \<lparr>req_method = ''GET'', req_remote_addr = ''203.0.113.9'',
     req_args = [], req_form = []\<rparr>"

definition ex_ghost_id :: string where
  \<comment> \<open>An id that the handler has never seen: no record, no event, no reminder thread.\<close>
  "ex_ghost_id = ''approval-ghost-prod-1-1700000001''"

definition ex_cfg_owners :: perm_config where
  \<comment> \<open>A configuration whose first user owns nothing: the project of the example
      belongs to alice and bob.\<close>
  "ex_cfg_owners =
     \<lparr>users_config = [(''mallory'', UserRole ''guest''), (''alice'', UserRole ''ops''),
                       (''bob'', UserRole ''dev'')],
      project_mapping = [(''payments'', [''bob'']), (''shop'', [''alice'', ''bob''])]\<rparr>"

definition ex_cfg_unmapped :: perm_config where
  \<comment> \<open>A configuration in which the project of the example has no owners: no entry of
      its own, none whose key resembles its name, and no \<^verbatim>\<open>default\<close> entry.\<close>
  "ex_cfg_unmapped =
     \<lparr>users_config = [(''mallory'', UserRole ''guest''), (''alice'', UserRole ''ops'')],
      project_mapping = [(''payments'', [''alice''])]\<rparr>"

definition ex_data_unmapped :: "pyval pydict" where
  \<comment> \<open>The example record as \<^verbatim>\<open>approval_wait\<close> creates it under that configuration.\<close>
  "ex_data_unmapped =
     AList.update ''project_owners'' (PStrList [''mallory'', ''alice'']) ex_data"

definition ex_state_unmapped :: api_state where
  "ex_state_unmapped = ex_state\<lparr>pending_approvals := [(ex_id, ex_data_unmapped)]\<rparr>"

definition ex_cfg_fuzzy :: perm_config where
  \<comment> \<open>A configuration in which the project of the example has no entry of its own, but
      its name is contained in the key of another entry.\<close>
  "ex_cfg_fuzzy =
     \<lparr>users_config = [(''mallory'', UserRole ''guest''), (''alice'', UserRole ''ops''),
                       (''bob'', UserRole ''dev'')],
      project_mapping = [(''payments'', [''alice'']), (''Shop-Backend'', [''bob''])]\<rparr>"

definition ex_data_fuzzy :: "pyval pydict" where
  "ex_data_fuzzy = AList.update ''project_owners'' (PStrList [''bob'']) ex_data"

definition ex_state_fuzzy :: api_state where
  "ex_state_fuzzy = ex_state\<lparr>pending_approvals := [(ex_id, ex_data_fuzzy)]\<rparr>"

section \<open>Properties\<close>

subsection \<open>Auxiliary facts about the operations\<close>

lemma cancel_keeps_resolved:
  "field_of s i ''status'' = Some st \<Longrightarrow> st \<noteq> PStr ''pending'' \<Longrightarrow>
   pending_approvals (cancel_reminder_timer s i) = pending_approvals s"
  by (simp add: cancel_reminder_timer_def field_of_def Let_def split: option.splits)

lemma cancel_no_status:
  "field_of s i ''status'' = None \<Longrightarrow>
   pending_approvals (cancel_reminder_timer s i) = pending_approvals s"
  by (simp add: cancel_reminder_timer_def field_of_def Let_def split: option.splits)

lemma cancel_pending:
  "map_of (pending_approvals s) i = Some d \<Longrightarrow> map_of d ''status'' = Some (PStr ''pending'') \<Longrightarrow>
   pending_approvals (cancel_reminder_timer s i) =
     AList.update i (AList.update ''reminder_stopped'' (PBool True) d) (pending_approvals s)"
  by (simp add: cancel_reminder_timer_def Let_def)

lemma cancel_fields:
  "approval_events (cancel_reminder_timer s i) = approval_events s"
  "database_service (cancel_reminder_timer s i) = database_service s"
  "processing_approvals (cancel_reminder_timer s i) = processing_approvals s"
  "stopped_reminders (cancel_reminder_timer s i) = insert i (stopped_reminders s)"
  by (simp_all add: cancel_reminder_timer_def Let_def split: option.splits)

lemma set_event_fields:
  "pending_approvals (set_event s i) = pending_approvals s"
  "database_service (set_event s i) = database_service s"
  "processing_approvals (set_event s i) = processing_approvals s"
  "stopped_reminders (set_event s i) = stopped_reminders s"
  by (simp_all add: set_event_def split: option.splits)

lemma field_of_processing:
  "field_of (s\<lparr>processing_approvals := P\<rparr>) i k = field_of s i k"
  by (simp add: field_of_def)

lemma field_of_cong:
  "pending_approvals s = pending_approvals t \<Longrightarrow> field_of s i k = field_of t i k"
  by (simp add: field_of_def)

lemma pai_in_progress:
  "i \<in> processing_approvals s \<Longrightarrow>
   process_approval_internal cfg now s i a aid u c = (s, False, MsgProcessing)"
  by (simp add: process_approval_internal_def)

lemma pai_processing:
  "processing_approvals (fst (process_approval_internal cfg now s i a aid u c)) =
   processing_approvals s"
  by (auto simp: process_approval_internal_def Let_def cancel_fields split: option.splits)

lemma pai_resolved:
  assumes st: "field_of s i ''status'' = Some st" and np: "st \<noteq> PStr ''pending''"
    and free: "i \<notin> processing_approvals s"
  shows "process_approval_internal cfg now s i a aid u c =
     ((cancel_reminder_timer (s\<lparr>processing_approvals := insert i (processing_approvals s)\<rparr>) i)
         \<lparr>processing_approvals := processing_approvals s - {i}\<rparr>, False,
      if st = PStr ''approved'' then MsgAlreadyApproved
      else if st = PStr ''rejected'' then MsgAlreadyRejected
      else MsgAlreadyHandled st)"
proof -
  let ?s0 = "s\<lparr>processing_approvals := insert i (processing_approvals s)\<rparr>"
  let ?s1 = "cancel_reminder_timer ?s0 i"
  have pa: "pending_approvals ?s1 = pending_approvals s"
    using cancel_keeps_resolved[of ?s0 i st] st np by (simp add: field_of_processing)
  from st obtain d where d: "map_of (pending_approvals s) i = Some d" "map_of d ''status'' = Some st"
    by (auto simp: field_of_def split: option.splits)
  show ?thesis
    using free np d pa
    by (simp add: process_approval_internal_def Let_def cancel_fields)
qed

lemma pai_no_status:
  assumes st: "field_of s i ''status'' = None"
  shows "pending_approvals (fst (process_approval_internal cfg now s i a aid u c)) =
         pending_approvals s"
proof (cases "i \<in> processing_approvals s")
  case True
  then show ?thesis by (simp add: pai_in_progress)
next
  case False
  let ?s0 = "s\<lparr>processing_approvals := insert i (processing_approvals s)\<rparr>"
  let ?s1 = "cancel_reminder_timer ?s0 i"
  have pa: "pending_approvals ?s1 = pending_approvals s"
    using cancel_no_status[of ?s0 i] st by (simp add: field_of_processing)
  show ?thesis
  proof (cases "map_of (pending_approvals s) i")
    case None
    then show ?thesis using False pa
      by (simp add: process_approval_internal_def Let_def)
  next
    case (Some d)
    then have "map_of d ''status'' = None" using st by (simp add: field_of_def)
    then show ?thesis using False pa Some
      by (simp add: process_approval_internal_def Let_def)
  qed
qed

lemma pai_pending:
  assumes d: "map_of (pending_approvals s) i = Some d"
             "map_of d ''status'' = Some (PStr ''pending'')"
    and free: "i \<notin> processing_approvals s"
  shows "process_approval_internal cfg now s i a aid u c =
     ((cancel_reminder_timer (s\<lparr>processing_approvals := insert i (processing_approvals s)\<rparr>) i)
        \<lparr>pending_approvals := AList.update i (decided cfg now a u c d) (pending_approvals s),
         approval_events := AList.update i True (approval_events s),
         processing_approvals := processing_approvals s - {i}\<rparr>, True, MsgSuccess a)"
proof -
  let ?s0 = "s\<lparr>processing_approvals := insert i (processing_approvals s)\<rparr>"
  let ?s1 = "cancel_reminder_timer ?s0 i"
  have pa: "pending_approvals ?s1 =
      AList.update i (AList.update ''reminder_stopped'' (PBool True) d) (pending_approvals s)"
    using cancel_pending[of ?s0 i d] d by simp
  have m: "map_of (pending_approvals ?s1) i =
      Some (AList.update ''reminder_stopped'' (PBool True) d)"
    by (simp add: pa update_conv')
  have st: "map_of (AList.update ''reminder_stopped'' (PBool True) d) ''status'' =
      Some (PStr ''pending'')"
    using d by (simp add: update_conv')
  show ?thesis
    unfolding process_approval_internal_def Let_def
    using free m st
    by (simp add: cancel_fields decided_def pa)
qed

lemma decided_fields:
  "map_of (decided cfg now a u c d) ''status'' =
     Some (PStr (if a = ''approve'' then ''approved''
                 else if a = ''reject'' then ''rejected''
                 else if a \<in> {''approved'', ''rejected''} then a
                 else a @ ''d''))"
  "map_of (decided cfg now a u c d) ''approver'' = Some (PStr u)"
  "map_of (decided cfg now a u c d) ''approver_role'' = Some (PStr (get_user_role cfg u))"
  "map_of (decided cfg now a u c d) ''comment'' = Some (PStr c)"
  "map_of (decided cfg now a u c d) ''updated_at'' = Some (PStr now)"
  by (simp_all add: decided_def update_conv')

lemma pai_pending_field:
  assumes "field_of s i ''status'' = Some (PStr ''pending'')" "i \<notin> processing_approvals s"
  shows "\<exists>d. map_of (pending_approvals s) i = Some d \<and>
             field_of (fst (process_approval_internal cfg now s i a aid u c)) i k =
             map_of (decided cfg now a u c d) k"
proof -
  from assms(1) obtain d where d: "map_of (pending_approvals s) i = Some d"
      "map_of d ''status'' = Some (PStr ''pending'')"
    by (auto simp: field_of_def split: option.splits)
  show ?thesis
    using d by (simp add: pai_pending[OF d assms(2)] field_of_def update_conv')
qed

lemma timeout_handler_resolved:
  "field_of s i ''status'' = Some st \<Longrightarrow> st \<noteq> PStr ''pending'' \<Longrightarrow> timeout_handler now s i = s"
  by (simp add: timeout_handler_def field_of_def split: option.splits)

lemma timeout_handler_no_status:
  "field_of s i ''status'' = None \<Longrightarrow> timeout_handler now s i = s"
  by (simp add: timeout_handler_def field_of_def split: option.splits)

lemma timeout_handler_pending:
  assumes "field_of s i ''status'' = Some (PStr ''pending'')"
  shows "field_of (timeout_handler now s i) i ''status'' = Some (PStr ''timeout'')"
    and "field_of (timeout_handler now s i) i ''approver'' = Some (PStr ''system'')"
proof -
  from assms obtain d where d: "map_of (pending_approvals s) i = Some d"
      "map_of d ''status'' = Some (PStr ''pending'')"
    by (auto simp: field_of_def split: option.splits)
  let ?d = "AList.update ''updated_at'' (PStr now)
             (AList.update ''comment'' (PStr timeout_comment)
              (AList.update ''approver_role'' (PStr ''system'')
               (AList.update ''approver'' (PStr ''system'')
                (AList.update ''status'' (PStr ''timeout'') d))))"
  let ?s1 = "s\<lparr>pending_approvals := AList.update i ?d (pending_approvals s)\<rparr>"
  have th: "timeout_handler now s i = cancel_reminder_timer (set_event ?s1 i) i"
    using d by (simp add: timeout_handler_def Let_def)
  have f: "field_of (set_event ?s1 i) i ''status'' = Some (PStr ''timeout'')"
    by (simp add: field_of_def set_event_fields update_conv')
  have "pending_approvals (cancel_reminder_timer (set_event ?s1 i) i) =
        pending_approvals (set_event ?s1 i)"
    using cancel_keeps_resolved[OF f] by simp
  then have pa: "pending_approvals (timeout_handler now s i) = pending_approvals ?s1"
    by (simp add: th set_event_fields)
  show "field_of (timeout_handler now s i) i ''status'' = Some (PStr ''timeout'')"
    using field_of_cong[OF pa] by (simp add: field_of_def update_conv')
  show "field_of (timeout_handler now s i) i ''approver'' = Some (PStr ''system'')"
    using field_of_cong[OF pa] by (simp add: field_of_def update_conv')
qed

lemma cancel_status:
  "field_of (cancel_reminder_timer s i) i ''status'' = field_of s i ''status''"
proof (cases "field_of s i ''status''")
  case None
  show ?thesis using field_of_cong[OF cancel_no_status[OF None]] .
next
  case (Some st)
  show ?thesis
  proof (cases "st = PStr ''pending''")
    case False
    show ?thesis using field_of_cong[OF cancel_keeps_resolved[OF Some False]] .
  next
    case True
    from Some True obtain d where d: "map_of (pending_approvals s) i = Some d"
        "map_of d ''status'' = Some (PStr ''pending'')"
      by (auto simp: field_of_def split: option.splits)
    show ?thesis
      using d by (simp add: field_of_def cancel_pending[OF d] update_conv')
  qed
qed

lemma pai_db:
  "database_service (fst (process_approval_internal cfg now s i a aid u c)) = database_service s"
  by (simp add: process_approval_internal_def Let_def cancel_fields split: option.splits)

lemma pai_ok_pending:
  assumes "fst (snd (process_approval_internal cfg now s i a aid u c))"
  shows "field_of s i ''status'' = Some (PStr ''pending'') \<and> i \<notin> processing_approvals s"
proof -
  have free: "i \<notin> processing_approvals s"
    using assms by (auto simp: pai_in_progress)
  let ?s0 = "s\<lparr>processing_approvals := insert i (processing_approvals s)\<rparr>"
  have "field_of (cancel_reminder_timer ?s0 i) i ''status'' = Some (PStr ''pending'')"
    using assms free
    by (simp add: process_approval_internal_def Let_def field_of_def split: option.splits if_splits)
  then show ?thesis using free by (simp add: cancel_status field_of_processing)
qed

subsection \<open>Facts about the running example\<close>

lemma ex_state_record: "map_of (pending_approvals ex_state) ex_id = Some ex_data"
  by (simp add: ex_state_def)

lemma ex_data_status: "map_of ex_data ''status'' = Some (PStr ''pending'')"
  by (simp add: ex_data_def)

lemma ex_state_free: "ex_id \<notin> processing_approvals ex_state"
  by (simp add: ex_state_def)

lemma ex_state_pending: "field_of ex_state ex_id ''status'' = Some (PStr ''pending'')"
  by (simp add: field_of_def ex_state_record ex_data_status)

lemma ex_submit:
  "process_approval_internal cfg now ex_state ex_id a aid u c =
     ((cancel_reminder_timer
         (ex_state\<lparr>processing_approvals := insert ex_id (processing_approvals ex_state)\<rparr>) ex_id)
        \<lparr>pending_approvals :=
           AList.update ex_id (decided cfg now a u c ex_data) (pending_approvals ex_state),
         approval_events := AList.update ex_id True (approval_events ex_state),
         processing_approvals := processing_approvals ex_state - {ex_id}\<rparr>, True, MsgSuccess a)"
  by (rule pai_pending[OF ex_state_record ex_data_status ex_state_free])

lemma ex_approved_fields:
  "pending_approvals ex_approved =
     [(ex_id, decided ex_cfg ''2023-11-14T22:14:19.500000'' ''approved'' ''alice'' ''ok'' ex_data)]"
  "approval_events ex_approved = [(ex_id, True)]"
  "processing_approvals ex_approved = {}"
  "stopped_reminders ex_approved = {ex_id}"
  "database_service ex_approved = Some ex_db"
  unfolding ex_approved_def submit_state_def ex_submit
  by (simp_all add: cancel_fields) (simp_all add: ex_state_def)

lemma ex_approved_status: "field_of ex_approved ex_id ''status'' = Some (PStr ''approved'')"
  by (simp add: field_of_def ex_approved_fields decided_fields)

subsection \<open>The status leaves \<open>pending\<close> once\<close>

text \<open>
  The decision submission (\<^const>\<open>process_approval_internal\<close>) and the timeout enforcer
  (\<^const>\<open>timeout_handler\<close>) move the status only away from \<open>pending\<close>: a submission with
  one of the actions that the entry points pass leaves \<open>approved\<close> or \<open>rejected\<close>, the
  enforcer leaves \<open>timeout\<close>.  Once the status is not \<open>pending\<close>, neither operation
  changes any field of any record: a later submission fails, with one of the "already
  processed" messages unless another submission for the id is marked in progress, and
  the enforcer changes nothing at all.  A submission leaves the set of in-progress marks
  as it found it, so between submissions no id is marked.  (The third writer of the
  status, the code after the wait loop, is the subject of the section on the wait loop.)
\<close>

theorem status_leaves_pending_once:
  "(field_of s i ''status'' = Some st \<and> st \<noteq> PStr ''pending'' \<longrightarrow>
       pending_approvals (submit_state cfg now s i a aid u c) = pending_approvals s
     \<and> \<not> submit_ok cfg now s i a aid u c
     \<and> (i \<notin> processing_approvals s \<longrightarrow> is_already_processed (submit_msg cfg now s i a aid u c))
     \<and> timeout_handler now s i = s)
   \<and> (field_of s i ''status'' = Some (PStr ''pending'') \<longrightarrow>
         (submit_ok cfg now s i a aid u c
            \<and> a \<in> {''approve'', ''reject'', ''approved'', ''rejected''} \<longrightarrow>
          field_of (submit_state cfg now s i a aid u c) i ''status''
            \<in> {Some (PStr ''approved''), Some (PStr ''rejected'')})
       \<and> field_of (timeout_handler now s i) i ''status'' = Some (PStr ''timeout''))
   \<and> (field_of (submit_state cfg now s i a aid u c) i ''status'' \<noteq> field_of s i ''status'' \<longrightarrow>
         field_of s i ''status'' = Some (PStr ''pending''))
   \<and> (field_of (timeout_handler now s i) i ''status'' \<noteq> field_of s i ''status'' \<longrightarrow>
         field_of s i ''status'' = Some (PStr ''pending''))
   \<and> processing_approvals (submit_state cfg now s i a aid u c) = processing_approvals s"
proof -
  have marks: "processing_approvals (submit_state cfg now s i a aid u c) = processing_approvals s"
    by (simp add: submit_state_def pai_processing)
  have resolved: "pending_approvals (submit_state cfg now s i a aid u c) = pending_approvals s
     \<and> \<not> submit_ok cfg now s i a aid u c
     \<and> (i \<notin> processing_approvals s \<longrightarrow> is_already_processed (submit_msg cfg now s i a aid u c))
     \<and> timeout_handler now s i = s"
    if st: "field_of s i ''status'' = Some st" "st \<noteq> PStr ''pending''" for st
  proof (cases "i \<in> processing_approvals s")
    case True
    then show ?thesis
      using timeout_handler_resolved[OF st]
      by (simp add: submit_state_def submit_ok_def pai_in_progress)
  next
    case False
    let ?s0 = "s\<lparr>processing_approvals := insert i (processing_approvals s)\<rparr>"
    have "pending_approvals (cancel_reminder_timer ?s0 i) = pending_approvals s"
      using cancel_keeps_resolved[of ?s0 i st] st by (simp add: field_of_processing)
    then show ?thesis
      using False timeout_handler_resolved[OF st]
      by (simp add: submit_state_def submit_ok_def submit_msg_def pai_resolved[OF st False]
          is_already_processed_def)
  qed
  have pending: "field_of (submit_state cfg now s i a aid u c) i ''status''
            \<in> {Some (PStr ''approved''), Some (PStr ''rejected'')}"
    if st: "field_of s i ''status'' = Some (PStr ''pending'')"
      and ok: "submit_ok cfg now s i a aid u c"
      and act: "a \<in> {''approve'', ''reject'', ''approved'', ''rejected''}"
  proof -
    have free: "i \<notin> processing_approvals s"
      using ok by (auto simp: submit_ok_def pai_in_progress)
    from pai_pending_field[OF st free, of cfg now a aid u c "''status''"]
    show ?thesis using act by (auto simp: submit_state_def decided_fields)
  qed
  have only_from_pending:
    "field_of s i ''status'' = Some (PStr ''pending'')"
    if ch: "field_of (submit_state cfg now s i a aid u c) i ''status'' \<noteq> field_of s i ''status''"
  proof (cases "field_of s i ''status''")
    case None
    from pai_no_status[OF None, of cfg now a aid u c] ch show ?thesis
      by (simp add: submit_state_def field_of_def)
  next
    case (Some st)
    show ?thesis
    proof (cases "st = PStr ''pending''")
      case True
      then show ?thesis using Some by simp
    next
      case False
      from resolved[OF Some False] ch show ?thesis by (simp add: field_of_def)
    qed
  qed
  have only_from_pending_timeout:
    "field_of s i ''status'' = Some (PStr ''pending'')"
    if ch: "field_of (timeout_handler now s i) i ''status'' \<noteq> field_of s i ''status''"
  proof (cases "field_of s i ''status''")
    case None
    from timeout_handler_no_status[OF None] ch show ?thesis by simp
  next
    case (Some st)
    show ?thesis
    proof (cases "st = PStr ''pending''")
      case True
      then show ?thesis using Some by simp
    next
      case False
      from timeout_handler_resolved[OF Some False] ch show ?thesis by simp
    qed
  qed
  show ?thesis
    using resolved pending only_from_pending only_from_pending_timeout
      timeout_handler_pending(1) marks
    by blast
qed

theorem status_leaves_pending_once_witness:
  "field_of ex_approved ex_id ''status'' = Some (PStr ''approved'')
   \<and> PStr ''approved'' \<noteq> PStr ''pending''
   \<and> ex_id \<notin> processing_approvals ex_approved
   \<and> pending_approvals (submit_state ex_cfg ''2023-11-14T22:14:20.000300'' ex_approved ex_id
          ''rejected'' ''telegram_user'' ''bob'' ''too late'') = pending_approvals ex_approved
   \<and> \<not> submit_ok ex_cfg ''2023-11-14T22:14:20.000300'' ex_approved ex_id
          ''rejected'' ''telegram_user'' ''bob'' ''too late''
   \<and> is_already_processed (submit_msg ex_cfg ''2023-11-14T22:14:20.000300'' ex_approved ex_id
          ''rejected'' ''telegram_user'' ''bob'' ''too late'')
   \<and> timeout_handler ''2023-11-14T22:14:20.000300'' ex_approved ex_id = ex_approved
   \<and> field_of ex_state ex_id ''status'' = Some (PStr ''pending'')
   \<and> submit_ok ex_cfg ''2023-11-14T22:14:20.000300'' ex_state ex_id
          ''rejected'' ''telegram_user'' ''bob'' ''too late''
   \<and> field_of (submit_state ex_cfg ''2023-11-14T22:14:20.000300'' ex_state ex_id
          ''rejected'' ''telegram_user'' ''bob'' ''too late'') ex_id ''status''
        \<in> {Some (PStr ''approved''), Some (PStr ''rejected'')}
   \<and> field_of (timeout_handler ''2023-11-14T22:14:20.000300'' ex_state ex_id) ex_id ''status''
        = Some (PStr ''timeout'')"
proof -
  note resolved = status_leaves_pending_once[of ex_approved ex_id "PStr ''approved''" ex_cfg
            "''2023-11-14T22:14:20.000300''" "''rejected''" "''telegram_user''" "''bob''"
            "''too late''"]
  note pending = status_leaves_pending_once[of ex_state ex_id "PStr ''pending''" ex_cfg
            "''2023-11-14T22:14:20.000300''" "''rejected''" "''telegram_user''" "''bob''"
            "''too late''"]
  have ok: "submit_ok ex_cfg ''2023-11-14T22:14:20.000300'' ex_state ex_id
          ''rejected'' ''telegram_user'' ''bob'' ''too late''"
    by (simp add: submit_ok_def ex_submit)
  have act: "''rejected'' \<in> {''approve'', ''reject'', ''approved'', ''rejected''}"
    by simp
  have ne: "PStr ''approved'' \<noteq> PStr ''pending''"
    by simp
  have free: "ex_id \<notin> processing_approvals ex_approved"
    by (simp add: ex_approved_fields)
  show ?thesis
    using resolved pending ok act ne free ex_approved_status ex_state_pending
    by blast
qed

subsection \<open>A decision is written to the in-memory record only\<close>

text \<open>
  Claim C3, as the code has it.  \<^const>\<open>process_approval_internal\<close> is the "pure
  memory" path of the source: a successful decision writes the new status, the actor, the
  actor's role, the comment and the timestamp to the in-memory record, and on every path
  the durable store is left exactly as it was.
\<close>

theorem decision_written_to_memory_only:
  "database_service (submit_state cfg now s i a aid u c) = database_service s
   \<and> (submit_ok cfg now s i a aid u c \<longrightarrow>
        field_of (submit_state cfg now s i a aid u c) i ''status'' =
          Some (PStr (if a = ''approve'' then ''approved''
                      else if a = ''reject'' then ''rejected''
                      else if a \<in> {''approved'', ''rejected''} then a
                      else a @ ''d''))
      \<and> field_of (submit_state cfg now s i a aid u c) i ''approver'' = Some (PStr u)
      \<and> field_of (submit_state cfg now s i a aid u c) i ''approver_role'' =
          Some (PStr (get_user_role cfg u))
      \<and> field_of (submit_state cfg now s i a aid u c) i ''comment'' = Some (PStr c)
      \<and> field_of (submit_state cfg now s i a aid u c) i ''updated_at'' = Some (PStr now))"
proof -
  have db: "database_service (submit_state cfg now s i a aid u c) = database_service s"
    by (simp add: submit_state_def pai_db)
  have mem: "field_of (submit_state cfg now s i a aid u c) i ''status'' =
          Some (PStr (if a = ''approve'' then ''approved''
                      else if a = ''reject'' then ''rejected''
                      else if a \<in> {''approved'', ''rejected''} then a
                      else a @ ''d''))
      \<and> field_of (submit_state cfg now s i a aid u c) i ''approver'' = Some (PStr u)
      \<and> field_of (submit_state cfg now s i a aid u c) i ''approver_role'' =
          Some (PStr (get_user_role cfg u))
      \<and> field_of (submit_state cfg now s i a aid u c) i ''comment'' = Some (PStr c)
      \<and> field_of (submit_state cfg now s i a aid u c) i ''updated_at'' = Some (PStr now)"
    if ok: "submit_ok cfg now s i a aid u c"
  proof -
    from pai_ok_pending[of cfg now s i a aid u c] ok
    have p: "field_of s i ''status'' = Some (PStr ''pending'')" "i \<notin> processing_approvals s"
      by (simp_all add: submit_ok_def)
    have f: "\<exists>d. field_of (submit_state cfg now s i a aid u c) i k =
                 map_of (decided cfg now a u c d) k" for k
      using pai_pending_field[OF p, of cfg now a aid u c k]
      unfolding submit_state_def by blast
    show ?thesis
      using f[of "''status''"] f[of "''approver''"] f[of "''approver_role''"]
        f[of "''comment''"] f[of "''updated_at''"]
      unfolding decided_fields by blast
  qed
  show ?thesis using db mem by blast
qed


lemma ex_role: "get_user_role ex_cfg ''alice'' = ''ops''"
  by (simp add: get_user_role_def get_user_info_def ex_cfg_def dict_get_def)

theorem decision_written_to_memory_only_witness:
  "submit_ok ex_cfg ''2023-11-14T22:14:19.500000'' ex_state ex_id
      ''approved'' ''web_user'' ''alice'' ''ok''
   \<and> field_of ex_approved ex_id ''status'' = Some (PStr ''approved'')
   \<and> field_of ex_approved ex_id ''approver'' = Some (PStr ''alice'')
   \<and> field_of ex_approved ex_id ''approver_role'' = Some (PStr ''ops'')
   \<and> field_of ex_approved ex_id ''comment'' = Some (PStr ''ok'')
   \<and> field_of ex_approved ex_id ''updated_at'' = Some (PStr ''2023-11-14T22:14:19.500000'')
   \<and> database_service ex_approved = database_service ex_state"
proof -
  have ok: "submit_ok ex_cfg ''2023-11-14T22:14:19.500000'' ex_state ex_id
      ''approved'' ''web_user'' ''alice'' ''ok''"
    by (simp add: submit_ok_def ex_submit)
  have st: "(if ''approved'' = ''approve'' then ''approved''
             else if ''approved'' = ''reject'' then ''rejected''
             else if ''approved'' \<in> {''approved'', ''rejected''} then ''approved''
             else ''approved'' @ ''d'') = ''approved''"
    by simp
  note t = decision_written_to_memory_only[of ex_cfg "''2023-11-14T22:14:19.500000''" ex_state
        ex_id "''approved''" "''web_user''" "''alice''" "''ok''", folded ex_approved_def]
  show ?thesis
    using t ok unfolding st ex_role by blast
qed

theorem decision_not_in_durable_store:
  "submit_ok ex_cfg ''2023-11-14T22:14:19.500000'' ex_state ex_id
      ''approved'' ''web_user'' ''alice'' ''ok''
   \<and> field_of ex_approved ex_id ''status'' = Some (PStr ''approved'')
   \<and> durable_status ex_approved ex_id = Some ''pending''"
proof -
  have ok: "submit_ok ex_cfg ''2023-11-14T22:14:19.500000'' ex_state ex_id
      ''approved'' ''web_user'' ''alice'' ''ok''"
    by (simp add: submit_ok_def ex_submit)
  have "get_approval ex_db ex_id = Some ex_row"
    by (simp add: get_approval_def ex_db_def)
  then have "durable_status ex_approved ex_id = Some ''pending''"
    by (simp add: durable_status_def ex_approved_fields ex_row_def)
  then show ?thesis using ok ex_approved_status by blast
qed


subsection \<open>What a late submission is told\<close>

text \<open>
  Claim C7, as the code has it.  A submission for an approval that is already approved or
  rejected (and has no other submission marked in progress) fails with a fixed message
  that names the existing status: "already passed" or "already rejected".  The message
  interpolates no value, so it names neither the actor nor the time.  The durable store's
  \<^const>\<open>update_approval_status\<close>, which the submission does not call, refuses a resolved
  row with the row's status and approver, again without the time.
\<close>

theorem late_submission_names_status_only:
  "(field_of s i ''status'' = Some (PStr st) \<and> st \<in> {''approved'', ''rejected''}
      \<and> i \<notin> processing_approvals s \<longrightarrow>
        \<not> submit_ok cfg now s i a aid u c
      \<and> submit_msg cfg now s i a aid u c =
          (if st = ''approved'' then MsgAlreadyApproved else MsgAlreadyRejected)
      \<and> message_values (submit_msg cfg now s i a aid u c) = [])
   \<and> (db_connected db \<and> map_of (db_rows db) i = Some row \<and> row_status row \<noteq> ''pending'' \<longrightarrow>
        update_approval_status now db i status u role c =
          (db, UpdAlreadyProcessed (row_status row) (row_approver row)))"
proof -
  have a: "\<not> submit_ok cfg now s i a aid u c
      \<and> submit_msg cfg now s i a aid u c =
          (if st = ''approved'' then MsgAlreadyApproved else MsgAlreadyRejected)
      \<and> message_values (submit_msg cfg now s i a aid u c) = []"
    if st: "field_of s i ''status'' = Some (PStr st)" "st \<in> {''approved'', ''rejected''}"
      and free: "i \<notin> processing_approvals s"
  proof -
    have ne: "PStr st \<noteq> PStr ''pending''" using st(2) by auto
    have r: "snd (process_approval_internal cfg now s i a aid u c) =
        (False, if st = ''approved'' then MsgAlreadyApproved else MsgAlreadyRejected)"
      using st(2) by (auto simp: pai_resolved[OF st(1) ne free])
    show ?thesis
      unfolding submit_ok_def submit_msg_def r
      by (simp add: message_values_def)
  qed
  have b: "update_approval_status now db i status u role c =
          (db, UpdAlreadyProcessed (row_status row) (row_approver row))"
    if "db_connected db" "map_of (db_rows db) i = Some row" "row_status row \<noteq> ''pending''"
    using that by (simp add: update_approval_status_def)
  show ?thesis using a b by blast
qed

theorem late_submission_names_status_only_witness:
  "field_of ex_approved ex_id ''status'' = Some (PStr ''approved'')
   \<and> ''approved'' \<in> {''approved'', ''rejected''}
   \<and> ex_id \<notin> processing_approvals ex_approved
   \<and> \<not> submit_ok ex_cfg ''2023-11-14T22:14:20.000300'' ex_approved ex_id
          ''rejected'' ''telegram_user'' ''bob'' ''too late''
   \<and> submit_msg ex_cfg ''2023-11-14T22:14:20.000300'' ex_approved ex_id
          ''rejected'' ''telegram_user'' ''bob'' ''too late'' = MsgAlreadyApproved
   \<and> db_connected ex_db_expired
   \<and> map_of (db_rows ex_db_expired) ex_id = Some (ex_row\<lparr>row_status := ''timeout''\<rparr>)
   \<and> row_status (ex_row\<lparr>row_status := ''timeout''\<rparr>) \<noteq> ''pending''
   \<and> update_approval_status ''2023-11-14T22:14:20.000300'' ex_db_expired ex_id ''rejected''
        ''bob'' ''dev'' ''too late'' = (ex_db_expired, UpdAlreadyProcessed ''timeout'' None)"
proof -
  have h1: "''approved'' \<in> {''approved'', ''rejected''}" by simp
  have h2: "ex_id \<notin> processing_approvals ex_approved" by (simp add: ex_approved_fields)
  have h3: "db_connected ex_db_expired" by (simp add: ex_db_expired_def ex_db_def)
  have h4: "map_of (db_rows ex_db_expired) ex_id = Some (ex_row\<lparr>row_status := ''timeout''\<rparr>)"
    by (simp add: ex_db_expired_def ex_db_def)
  have h5: "row_status (ex_row\<lparr>row_status := ''timeout''\<rparr>) \<noteq> ''pending''" by simp
  have h6: "row_approver (ex_row\<lparr>row_status := ''timeout''\<rparr>) = None"
    by (simp add: ex_row_def)
  have h7: "row_status (ex_row\<lparr>row_status := ''timeout''\<rparr>) = ''timeout''" by simp
  have h8: "(if ''approved'' = ''approved'' then MsgAlreadyApproved else MsgAlreadyRejected)
            = MsgAlreadyApproved" by simp
  note t = late_submission_names_status_only[of ex_approved ex_id "''approved''" ex_cfg
      "''2023-11-14T22:14:20.000300''" "''rejected''" "''telegram_user''" "''bob''"
      "''too late''" ex_db_expired "ex_row\<lparr>row_status := ''timeout''\<rparr>" "''rejected''"
      "''dev''", unfolded h6 h7 h8]
  show ?thesis using t ex_approved_status h1 h2 h3 h4 h5 by blast
qed

lemma ex_approved_decider:
  "field_of ex_approved ex_id ''approver'' = Some (PStr ''alice'')"
  "field_of ex_approved ex_id ''updated_at'' = Some (PStr ''2023-11-14T22:14:19.500000'')"
  by (simp_all add: field_of_def ex_approved_fields decided_fields)

theorem late_submission_omits_decider:
  "field_of ex_approved ex_id ''status'' = Some (PStr ''approved'')
   \<and> field_of ex_approved ex_id ''approver'' = Some (PStr ''alice'')
   \<and> field_of ex_approved ex_id ''updated_at'' = Some (PStr ''2023-11-14T22:14:19.500000'')
   \<and> \<not> submit_ok ex_cfg ''2023-11-14T22:14:20.000300'' ex_approved ex_id
        ''rejected'' ''telegram_user'' ''bob'' ''too late''
   \<and> submit_msg ex_cfg ''2023-11-14T22:14:20.000300'' ex_approved ex_id
        ''rejected'' ''telegram_user'' ''bob'' ''too late'' = MsgAlreadyApproved
   \<and> message_values MsgAlreadyApproved = []"
proof -
  have ne: "PStr ''approved'' \<noteq> PStr ''pending''" by simp
  have free: "ex_id \<notin> processing_approvals ex_approved" by (simp add: ex_approved_fields)
  have r: "snd (process_approval_internal ex_cfg ''2023-11-14T22:14:20.000300'' ex_approved ex_id
        ''rejected'' ''telegram_user'' ''bob'' ''too late'') = (False, MsgAlreadyApproved)"
    by (simp add: pai_resolved[OF ex_approved_status ne free])
  have m: "message_values MsgAlreadyApproved = []" by (simp add: message_values_def)
  show ?thesis
    unfolding submit_ok_def submit_msg_def r
    using ex_approved_status ex_approved_decider m by simp
qed

subsection \<open>The wait loop\<close>

lemma wait_loop_continue:
  assumes "int w < mw" "wait_iteration cfg (clock w) (sched w) i w s = (s', None)"
  shows "wait_loop cfg clock sched i mw w s = wait_loop cfg clock sched i mw (Suc w) s'"
  using assms by (subst wait_loop.simps) simp

lemma wait_loop_return:
  assumes "int w < mw" "wait_iteration cfg (clock w) (sched w) i w s = (s', Some r)"
  shows "wait_loop cfg clock sched i mw w s = (s', r)"
  using assms by (subst wait_loop.simps) simp

lemma wait_loop_end:
  assumes "\<not> int w < mw"
  shows "wait_loop cfg clock sched i mw w s = wait_timeout (clock w) i w s"
  using assms by (subst wait_loop.simps) simp

lemma wait_loop_idle:
  assumes "\<And>k. w \<le> k \<Longrightarrow> k < w + n \<Longrightarrow>
             wait_iteration cfg (clock k) (sched k) i k s = (s, None)"
    and "int (w + n) \<le> mw"
  shows "wait_loop cfg clock sched i mw w s = wait_loop cfg clock sched i mw (w + n) s"
  using assms
proof (induction n arbitrary: w)
  case 0
  then show ?case by simp
next
  case (Suc n)
  have step: "wait_loop cfg clock sched i mw w s = wait_loop cfg clock sched i mw (Suc w) s"
    using Suc.prems by (intro wait_loop_continue) auto
  have "wait_loop cfg clock sched i mw (Suc w) s = wait_loop cfg clock sched i mw (Suc w + n) s"
    using Suc.prems by (intro Suc.IH) auto
  with step show ?case by simp
qed

lemma wait_iteration_waited:
  "wait_iteration cfg now acts i w s = (s', Some r) \<Longrightarrow> waited_of r = Some w"
  by (auto simp: wait_iteration_def waited_of_def split: option.splits if_splits)

lemma wait_timeout_waited:
  "waited_of (snd (wait_timeout now i w s)) = Some n \<Longrightarrow> n = w"
  by (auto simp: wait_timeout_def Let_def waited_of_def split: option.splits if_splits)

lemma wait_loop_waited:
  "waited_of (snd (wait_loop cfg clock sched i mw w s)) = Some n \<Longrightarrow>
   w \<le> n \<and> int n \<le> max (int w) mw"
proof (induction cfg clock sched i mw w s rule: wait_loop.induct)
  case (1 cfg clock sched i mw w s)
  show ?case
  proof (cases "int w < mw")
    case False
    then show ?thesis
      using "1.prems" wait_timeout_waited[of "clock w" i w s n]
      by (simp add: wait_loop_end)
  next
    case True
    obtain s' r where it: "wait_iteration cfg (clock w) (sched w) i w s = (s', r)"
      by (cases "wait_iteration cfg (clock w) (sched w) i w s")
    show ?thesis
    proof (cases r)
      case None
      have eq: "wait_loop cfg clock sched i mw w s = wait_loop cfg clock sched i mw (Suc w) s'"
        using True it None by (intro wait_loop_continue) simp_all
      have "Suc w \<le> n \<and> int n \<le> max (int (Suc w)) mw"
        using "1.IH"[OF True refl _, of] it None "1.prems" eq by simp
      then show ?thesis using True by auto
    next
      case (Some resp)
      have eq: "wait_loop cfg clock sched i mw w s = (s', resp)"
        using True it Some by (intro wait_loop_return) simp_all
      have "waited_of resp = Some w"
        using it Some wait_iteration_waited by blast
      then show ?thesis using "1.prems" True by (simp add: eq)
    qed
  qed
qed

lemma ex_state_event: "map_of (approval_events ex_state) ex_id = Some False"
  by (simp add: ex_state_def)

lemma ex_idle_iteration:
  "wait_iteration cfg now [] ex_id k ex_state = (ex_state, None)"
  by (simp add: wait_iteration_def ex_state_record ex_data_status truthy_def
      wait_for_event_def ex_state_event run_env_def)


lemma ex_db_row: "get_approval ex_db ex_id = Some ex_row"
  by (simp add: get_approval_def ex_db_def)

lemma ex_unlocked_update:
  "update_approval_status now ex_db ex_id ''timeout'' ''system'' ''system'' timeout_comment =
     (ex_db, UpdLockRequired)"
  by (simp add: update_approval_status_def ex_db_def ex_row_def)

lemma ex_last_iteration:
  "wait_iteration ex_cfg now (ex_last_slice 59) ex_id 59 ex_state =
     (ex_approved\<lparr>approval_events := [(ex_id, False)]\<rparr>, None)"
proof -
  have run: "run_env ex_cfg (ex_last_slice 59) ex_state = ex_approved"
    by (simp add: run_env_def ex_last_slice_def ex_approved_def submit_state_def)
  show ?thesis
    by (simp add: wait_iteration_def ex_state_record ex_data_status truthy_def
        wait_for_event_def ex_state_event run ex_approved_fields)
qed

lemma wait_timeout_unlocked:
  assumes db: "database_service s = Some ex_db"
    and d: "map_of (pending_approvals s) ex_id = Some d"
    and st: "map_of d ''status'' = Some st" "st \<noteq> PStr ''pending''"
  shows "snd (wait_timeout now ex_id w s) = WaitTimeout w"
    and "database_service (fst (wait_timeout now ex_id w s)) = Some ex_db"
    and "pending_approvals (fst (wait_timeout now ex_id w s)) =
           AList.update ex_id (AList.update ''status'' (PStr ''timeout'') d) (pending_approvals s)"
proof -
  have f: "field_of s ex_id ''status'' = Some st"
    using d st by (simp add: field_of_def)
  have pa: "pending_approvals (cancel_reminder_timer s ex_id) = pending_approvals s"
    by (rule cancel_keeps_resolved[OF f st(2)])
  have r: "wait_timeout now ex_id w s =
     (set_event ((cancel_reminder_timer s ex_id)\<lparr>database_service := Some ex_db,
         pending_approvals := AList.update ex_id (AList.update ''status'' (PStr ''timeout'') d)
           (pending_approvals s)\<rparr>) ex_id, WaitTimeout w)"
    using d by (simp add: wait_timeout_def Let_def cancel_fields db ex_db_row ex_row_def
        ex_unlocked_update pa)
  show "snd (wait_timeout now ex_id w s) = WaitTimeout w" by (simp add: r)
  show "database_service (fst (wait_timeout now ex_id w s)) = Some ex_db"
    by (simp add: r set_event_fields)
  show "pending_approvals (fst (wait_timeout now ex_id w s)) =
           AList.update ex_id (AList.update ''status'' (PStr ''timeout'') d) (pending_approvals s)"
    by (simp add: r set_event_fields)
qed


lemma wait_timeout_unlocked_pending:
  assumes db: "database_service s = Some ex_db"
    and d: "map_of (pending_approvals s) ex_id = Some d"
    and st: "map_of d ''status'' = Some (PStr ''pending'')"
  shows "snd (wait_timeout now ex_id w s) = WaitTimeout w"
    and "database_service (fst (wait_timeout now ex_id w s)) = Some ex_db"
    and "field_of (fst (wait_timeout now ex_id w s)) ex_id ''status'' = Some (PStr ''timeout'')"
proof -
  let ?d = "AList.update ''reminder_stopped'' (PBool True) d"
  have pa: "pending_approvals (cancel_reminder_timer s ex_id) =
      AList.update ex_id ?d (pending_approvals s)"
    by (rule cancel_pending[OF d st])
  have r: "wait_timeout now ex_id w s =
     (set_event ((cancel_reminder_timer s ex_id)\<lparr>database_service := Some ex_db,
         pending_approvals := AList.update ex_id (AList.update ''status'' (PStr ''timeout'') ?d)
           (AList.update ex_id ?d (pending_approvals s))\<rparr>) ex_id, WaitTimeout w)"
    by (simp add: wait_timeout_def Let_def cancel_fields db ex_db_row ex_row_def
        ex_unlocked_update pa update_conv')
  show "snd (wait_timeout now ex_id w s) = WaitTimeout w" by (simp add: r)
  show "database_service (fst (wait_timeout now ex_id w s)) = Some ex_db"
    by (simp add: r set_event_fields)
  show "field_of (fst (wait_timeout now ex_id w s)) ex_id ''status'' = Some (PStr ''timeout'')"
    by (simp add: r set_event_fields field_of_def update_conv')
qed

lemma ex_idle_wait:
  "wait_loop ex_cfg ex_clock ex_idle ex_id 60 0 ex_state =
     wait_timeout (ex_clock 60) ex_id 60 ex_state"
proof -
  have "wait_loop ex_cfg ex_clock ex_idle ex_id 60 0 ex_state =
        wait_loop ex_cfg ex_clock ex_idle ex_id 60 (0 + 60) ex_state"
    by (rule wait_loop_idle) (simp_all add: ex_idle_def ex_idle_iteration)
  then show ?thesis by (simp add: wait_loop_end)
qed

lemma ex_last_slice_wait:
  "wait_loop ex_cfg ex_clock ex_last_slice ex_id 60 0 ex_state =
     wait_timeout (ex_clock 60) ex_id 60 (ex_approved\<lparr>approval_events := [(ex_id, False)]\<rparr>)"
proof -
  have "wait_loop ex_cfg ex_clock ex_last_slice ex_id 60 0 ex_state =
        wait_loop ex_cfg ex_clock ex_last_slice ex_id 60 (0 + 59) ex_state"
    by (rule wait_loop_idle) (simp_all add: ex_last_slice_def ex_idle_iteration)
  also have "\<dots> = wait_loop ex_cfg ex_clock ex_last_slice ex_id 60 (Suc 59)
                    (ex_approved\<lparr>approval_events := [(ex_id, False)]\<rparr>)"
  proof -
    have "int (0 + 59) < 60" by simp
    moreover have "wait_iteration ex_cfg (ex_clock (0 + 59)) (ex_last_slice (0 + 59)) ex_id
        (0 + 59) ex_state = (ex_approved\<lparr>approval_events := [(ex_id, False)]\<rparr>, None)"
      by (simp add: ex_last_iteration)
    ultimately have "wait_loop ex_cfg ex_clock ex_last_slice ex_id 60 (0 + 59) ex_state =
        wait_loop ex_cfg ex_clock ex_last_slice ex_id 60 (Suc (0 + 59))
          (ex_approved\<lparr>approval_events := [(ex_id, False)]\<rparr>)"
      by (rule wait_loop_continue)
    then show ?thesis by simp
  qed
  finally show ?thesis by (simp add: wait_loop_end)
qed

text \<open>
  Claim C4 at its failing input.  Nobody decides the example approval during its 60 seconds.
  After the loop the waiter reads the durable row, finds it pending and calls
  \<^const>\<open>update_approval_status\<close> for the timeout with actor \<open>system\<close>; the row was never
  locked, so the update is refused and the answer is ignored: the waiter returns the
  timeout, the in-memory status is \<open>timeout\<close>, and the durable store is exactly what it
  was, its row still pending.
\<close>

theorem timeout_not_written_to_durable_store:
  "snd (wait_loop ex_cfg ex_clock ex_idle ex_id 60 0 ex_state) = WaitTimeout 60
   \<and> field_of (fst (wait_loop ex_cfg ex_clock ex_idle ex_id 60 0 ex_state)) ex_id ''status''
       = Some (PStr ''timeout'')
   \<and> snd (update_approval_status (ex_clock 60) ex_db ex_id ''timeout'' ''system'' ''system''
            timeout_comment) = UpdLockRequired
   \<and> database_service (fst (wait_loop ex_cfg ex_clock ex_idle ex_id 60 0 ex_state))
       = database_service ex_state
   \<and> durable_status (fst (wait_loop ex_cfg ex_clock ex_idle ex_id 60 0 ex_state)) ex_id
       = Some ''pending''"
proof -
  have db: "database_service ex_state = Some ex_db" by (simp add: ex_state_def)
  note w = wait_timeout_unlocked_pending[OF db ex_state_record ex_data_status,
      of "ex_clock 60" 60]
  have "durable_status (fst (wait_timeout (ex_clock 60) ex_id 60 ex_state)) ex_id
       = Some ''pending''"
    by (simp add: durable_status_def w(2) ex_db_row ex_row_def)
  then show ?thesis
    by (simp add: ex_idle_wait w db ex_unlocked_update)
qed

theorem timeout_not_written_to_durable_store_witness:
  "\<not> row_is_locked ex_row \<and> row_approver ex_row \<noteq> Some ''system''
   \<and> row_status ex_row = ''pending''
   \<and> snd (update_approval_status (ex_clock 60) ex_db ex_id ''timeout'' ''system'' ''system''
            timeout_comment) = UpdLockRequired
   \<and> durable_status (fst (wait_loop ex_cfg ex_clock ex_idle ex_id 60 0 ex_state)) ex_id
       = Some ''pending''"
  using timeout_not_written_to_durable_store by (simp add: ex_row_def)

text \<open>
  Claim C2 at its failing input.  The example approval waits for 60 seconds; alice's
  approval arrives while the waiter blocks in its last iteration.  The decision is recorded
  in memory and the event wakes the waiter, but the loop ends without reading the status
  again: the code after the loop asks the durable store, which the decision never reached,
  answers with the timeout and overwrites the recorded status.
\<close>

theorem decision_in_last_slice_answered_as_timeout:
  "field_of (fst (wait_iteration ex_cfg (ex_clock 59) (ex_last_slice 59) ex_id 59 ex_state))
      ex_id ''status'' = Some (PStr ''approved'')
   \<and> snd (wait_loop ex_cfg ex_clock ex_last_slice ex_id 60 0 ex_state) = WaitTimeout 60
   \<and> field_of (fst (wait_loop ex_cfg ex_clock ex_last_slice ex_id 60 0 ex_state)) ex_id
       ''status'' = Some (PStr ''timeout'')
   \<and> field_of (fst (wait_loop ex_cfg ex_clock ex_last_slice ex_id 60 0 ex_state)) ex_id
       ''approver'' = Some (PStr ''alice'')"
proof -
  let ?t = "ex_approved\<lparr>approval_events := [(ex_id, False)]\<rparr>"
  let ?d = "decided ex_cfg ''2023-11-14T22:14:19.500000'' ''approved'' ''alice'' ''ok'' ex_data"
  have a: "field_of ?t ex_id ''status'' = Some (PStr ''approved'')"
    using ex_approved_status by (simp add: field_of_def)
  have db: "database_service ?t = Some ex_db" by (simp add: ex_approved_fields)
  have d: "map_of (pending_approvals ?t) ex_id = Some ?d" by (simp add: ex_approved_fields)
  have st: "map_of ?d ''status'' = Some (PStr ''approved'')" by (simp add: decided_fields)
  have ne: "PStr ''approved'' \<noteq> PStr ''pending''" by simp
  note w = wait_timeout_unlocked[OF db d st ne, of "ex_clock 60" 60]
  have f1: "field_of (fst (wait_timeout (ex_clock 60) ex_id 60 ?t)) ex_id ''status''
       = Some (PStr ''timeout'')"
    by (simp add: field_of_def w(3) update_conv')
  have f2: "field_of (fst (wait_timeout (ex_clock 60) ex_id 60 ?t)) ex_id ''approver''
       = Some (PStr ''alice'')"
    by (simp add: field_of_def w(3) update_conv' decided_fields)
  show ?thesis
    by (simp add: ex_last_iteration a ex_last_slice_wait w(1) f1 f2)
qed

text \<open>
  Claim C1 at its failing input, the run just described.  When the loop ends, the record's
  status is \<open>approved\<close>: it has left \<open>pending\<close>.  The code after the loop
  (\<^const>\<open>wait_timeout\<close>) assigns \<open>timeout\<close> to it without reading it, so a status that
  was no longer pending changes again, while the approver and the comment of the record
  still tell of alice's approval.
\<close>

theorem resolved_status_overwritten_after_wait:
  "fst (wait_iteration ex_cfg (ex_clock 59) (ex_last_slice 59) ex_id 59 ex_state)
     = ex_approved\<lparr>approval_events := [(ex_id, False)]\<rparr>
   \<and> field_of (ex_approved\<lparr>approval_events := [(ex_id, False)]\<rparr>) ex_id ''status''
       = Some (PStr ''approved'')
   \<and> field_of (fst (wait_timeout (ex_clock 60) ex_id 60
         (ex_approved\<lparr>approval_events := [(ex_id, False)]\<rparr>))) ex_id ''status''
       = Some (PStr ''timeout'')
   \<and> field_of (fst (wait_timeout (ex_clock 60) ex_id 60
         (ex_approved\<lparr>approval_events := [(ex_id, False)]\<rparr>))) ex_id ''approver''
       = Some (PStr ''alice'')
   \<and> field_of (fst (wait_timeout (ex_clock 60) ex_id 60
         (ex_approved\<lparr>approval_events := [(ex_id, False)]\<rparr>))) ex_id ''comment''
       = Some (PStr ''ok'')
   \<and> fst (wait_loop ex_cfg ex_clock ex_last_slice ex_id 60 0 ex_state)
       = fst (wait_timeout (ex_clock 60) ex_id 60
           (ex_approved\<lparr>approval_events := [(ex_id, False)]\<rparr>))"
proof -
  let ?t = "ex_approved\<lparr>approval_events := [(ex_id, False)]\<rparr>"
  let ?d = "decided ex_cfg ''2023-11-14T22:14:19.500000'' ''approved'' ''alice'' ''ok'' ex_data"
  have a: "field_of ?t ex_id ''status'' = Some (PStr ''approved'')"
    using ex_approved_status by (simp add: field_of_def)
  have db: "database_service ?t = Some ex_db" by (simp add: ex_approved_fields)
  have d: "map_of (pending_approvals ?t) ex_id = Some ?d" by (simp add: ex_approved_fields)
  have st: "map_of ?d ''status'' = Some (PStr ''approved'')" by (simp add: decided_fields)
  have ne: "PStr ''approved'' \<noteq> PStr ''pending''" by simp
  note w = wait_timeout_unlocked[OF db d st ne, of "ex_clock 60" 60]
  have f1: "field_of (fst (wait_timeout (ex_clock 60) ex_id 60 ?t)) ex_id ''status''
       = Some (PStr ''timeout'')"
    by (simp add: field_of_def w(3) update_conv')
  have f2: "field_of (fst (wait_timeout (ex_clock 60) ex_id 60 ?t)) ex_id ''approver''
       = Some (PStr ''alice'')"
    by (simp add: field_of_def w(3) update_conv' decided_fields)
  have f3: "field_of (fst (wait_timeout (ex_clock 60) ex_id 60 ?t)) ex_id ''comment''
       = Some (PStr ''ok'')"
    by (simp add: field_of_def w(3) update_conv' decided_fields)
  show ?thesis
    by (simp add: ex_last_iteration a ex_last_slice_wait f1 f2 f3)
qed

subsection \<open>The reminder thread\<close>

lemma reminder_loop_done:
  "\<not> c < 6 \<Longrightarrow> reminder_loop lower cfg obs i c t ar = ([], Exited)"
  by (subst reminder_loop.simps) simp

lemma reminder_loop_crash:
  "c < 6 \<Longrightarrow> stop_requested (obs t) i = Inl e \<Longrightarrow>
   reminder_loop lower cfg obs i c t ar = ([], Crashed e)"
  by (subst reminder_loop.simps) simp

lemma reminder_loop_stop:
  "stop_requested (obs t) i = Inr True \<Longrightarrow>
   reminder_loop lower cfg obs i c t ar = ([], Exited)"
  by (subst reminder_loop.simps) simp

lemma reminder_loop_db_return:
  "c < 6 \<Longrightarrow> stop_requested (obs t) i = Inr False \<Longrightarrow>
   check_database (obs t) i ar = DbReturn \<Longrightarrow>
   reminder_loop lower cfg obs i c t ar = ([], Exited)"
  by (subst reminder_loop.simps) simp

lemma reminder_loop_unbound:
  "c < 6 \<Longrightarrow> stop_requested (obs t) i = Inr False \<Longrightarrow>
   check_database (obs t) i ar = DbContinue None \<Longrightarrow>
   reminder_loop lower cfg obs i c t ar = ([], Crashed (UnboundLocalError ''approval_request''))"
  by (subst reminder_loop.simps) simp

lemma reminder_loop_fire_stop:
  "c < 6 \<Longrightarrow> stop_requested (obs t) i = Inr False \<Longrightarrow>
   check_database (obs t) i ar = DbContinue (Some row) \<Longrightarrow>
   (if c + 1 < 6 then interval_wait obs i (Suc t) [0..<150] else Inr (Suc t)) = Inl e \<Longrightarrow>
   reminder_loop lower cfg obs i c t ar = ([reminder_of lower cfg i row (c + 1)], e)"
  by (subst reminder_loop.simps) (simp add: Let_def reminder_of_def)

lemma reminder_loop_fire_next:
  "c < 6 \<Longrightarrow> stop_requested (obs t) i = Inr False \<Longrightarrow>
   check_database (obs t) i ar = DbContinue (Some row) \<Longrightarrow>
   (if c + 1 < 6 then interval_wait obs i (Suc t) [0..<150] else Inr (Suc t)) = Inr t' \<Longrightarrow>
   reminder_loop lower cfg obs i c t ar =
     (reminder_of lower cfg i row (c + 1) # fst (reminder_loop lower cfg obs i (c + 1) t' (Some row)),
      snd (reminder_loop lower cfg obs i (c + 1) t' (Some row)))"
  by (subst reminder_loop.simps) (simp add: Let_def reminder_of_def)

lemma reminder_loop_counts:
  "map rem_count (fst (reminder_loop lower cfg obs i c t ar)) =
     [Suc c ..< Suc c + length (fst (reminder_loop lower cfg obs i c t ar))]
   \<and> c + length (fst (reminder_loop lower cfg obs i c t ar)) \<le> max c 6"
proof (induction lower cfg obs i c t ar rule: reminder_loop.induct)
  case (1 lower cfg obs i c t ar)
  show ?case
  proof (cases "c < 6")
    case False
    then show ?thesis by (simp add: reminder_loop_done)
  next
    case c: True
    show ?thesis
    proof (cases "stop_requested (obs t) i")
      case (Inl e)
      then show ?thesis using c by (simp add: reminder_loop_crash)
    next
      case (Inr stop)
      show ?thesis
      proof (cases stop)
        case True
        then show ?thesis using Inr by (simp add: reminder_loop_stop)
      next
        case ns: False
        show ?thesis
        proof (cases "check_database (obs t) i ar")
          case DbReturn
          then show ?thesis using c Inr ns by (simp add: reminder_loop_db_return)
        next
          case (DbContinue x)
          show ?thesis
          proof (cases x)
            case None
            then show ?thesis using c Inr ns DbContinue by (simp add: reminder_loop_unbound)
          next
            case (Some row)
            let ?next = "if c + 1 < 6 then interval_wait obs i (Suc t) [0..<150] else Inr (Suc t)"
            show ?thesis
            proof (cases ?next)
              case (Inl e)
              have "reminder_loop lower cfg obs i c t ar = ([reminder_of lower cfg i row (c + 1)], e)"
                using c Inr ns DbContinue Some Inl by (intro reminder_loop_fire_stop) simp_all
              then show ?thesis using c by (simp add: reminder_of_def)
            next
              case nx: (Inr t')
              have eq: "reminder_loop lower cfg obs i c t ar =
                 (reminder_of lower cfg i row (c + 1) #
                    fst (reminder_loop lower cfg obs i (c + 1) t' (Some row)),
                  snd (reminder_loop lower cfg obs i (c + 1) t' (Some row)))"
                using c Inr ns DbContinue Some nx by (intro reminder_loop_fire_next) simp_all
              define L where "L = fst (reminder_loop lower cfg obs i (c + 1) t' (Some row))"
              have ih: "map rem_count L = [Suc (c + 1) ..< Suc (c + 1) + length L]
                 \<and> (c + 1) + length L \<le> max (c + 1) 6"
                unfolding L_def
                using "1.IH"[OF c Inr ns _ _ refl nx] DbContinue Some by simp
              have u: "[Suc c ..< Suc c + Suc (length L)] =
                       Suc c # [Suc (c + 1) ..< Suc (c + 1) + length L]"
                by (simp add: upt_conv_Cons del: upt_Suc)
              have "map rem_count (reminder_of lower cfg i row (c + 1) # L) =
                      [Suc c ..< Suc c + length (reminder_of lower cfg i row (c + 1) # L)]"
                using ih unfolding list.map length_Cons u by (simp add: reminder_of_def del: upt_Suc)
              moreover have "c + length (reminder_of lower cfg i row (c + 1) # L) \<le> max c 6"
                using ih c by simp
              ultimately show ?thesis
                unfolding eq L_def[symmetric] fst_conv by blast
            qed
          qed
        qed
      qed
    qed
  qed
qed


lemma first_wait_stop:
  "stop_requested (obs t) i = Inr True \<Longrightarrow> first_wait obs i (t # ts) = Some Exited"
  by simp

lemma interval_wait_stop:
  "stop_requested (obs t) i = Inr True \<Longrightarrow> interval_wait obs i t (k # ks) = Inl Exited"
  by simp

lemma first_wait_idle:
  "(\<And>t. stop_requested (obs t) i = Inr False \<and> \<not> db_says_resolved (obs t) i) \<Longrightarrow>
   first_wait obs i ts = None"
  by (induction ts) simp_all

lemma interval_wait_idle:
  "(\<And>t. stop_requested (obs t) i = Inr False) \<Longrightarrow>
   interval_wait obs i t ks = Inr (t + length ks)"
  by (induction ks arbitrary: t) simp_all

lemma still_pending_db:
  assumes "still_pending s i"
  shows "\<not> db_says_resolved s i"
    and "\<exists>row. check_database s i ar = DbContinue (Some row)"
  using assms
  by (auto simp: still_pending_def durable_status_def db_says_resolved_def check_database_def
      split: option.splits)

lemma reminder_loop_idle:
  assumes idle: "\<And>t. still_pending (obs t) i"
  shows "c \<le> 6 \<Longrightarrow> length (fst (reminder_loop lower cfg obs i c t ar)) = 6 - c
     \<and> snd (reminder_loop lower cfg obs i c t ar) = Exited"
proof (induction "6 - c" arbitrary: c t ar)
  case 0
  then show ?case by (simp add: reminder_loop_done)
next
  case (Suc n)
  then have c: "c < 6" by simp
  have ns: "stop_requested (obs u) i = Inr False" for u
    using idle[of u] by (simp add: still_pending_def)
  obtain row where row: "check_database (obs t) i ar = DbContinue (Some row)"
    using still_pending_db(2)[OF idle] by blast
  have "\<exists>t'. (if c + 1 < 6 then interval_wait obs i (Suc t) [0..<150] else Inr (Suc t))
          = Inr t'"
    using interval_wait_idle[of obs i "Suc t" "[0..<150]"] ns by (cases "c + 1 < 6") simp_all
  then obtain t' where nx:
    "(if c + 1 < 6 then interval_wait obs i (Suc t) [0..<150] else Inr (Suc t)) = Inr t'"
    by blast
  have eq: "reminder_loop lower cfg obs i c t ar =
     (reminder_of lower cfg i row (c + 1) #
        fst (reminder_loop lower cfg obs i (c + 1) t' (Some row)),
      snd (reminder_loop lower cfg obs i (c + 1) t' (Some row)))"
    using c ns row nx by (intro reminder_loop_fire_next) simp_all
  have "length (fst (reminder_loop lower cfg obs i (c + 1) t' (Some row))) = 6 - (c + 1)
     \<and> snd (reminder_loop lower cfg obs i (c + 1) t' (Some row)) = Exited"
    using Suc.hyps(2) c by (intro Suc.hyps(1)) simp_all
  then show ?case unfolding eq using c by simp
qed

lemma cancel_idem:
  "cancel_reminder_timer (cancel_reminder_timer s i) i = cancel_reminder_timer s i"
proof (cases "map_of (pending_approvals s) i")
  case None
  then show ?thesis by (simp add: cancel_reminder_timer_def Let_def)
next
  case (Some d)
  show ?thesis
  proof (cases "map_of d ''status''")
    case None
    then show ?thesis using Some by (simp add: cancel_reminder_timer_def Let_def)
  next
    case st: (Some st)
    show ?thesis
      using Some st by (simp add: cancel_reminder_timer_def Let_def update_conv')
  qed
qed

lemma cancel_no_timer:
  "i \<notin> reminder_timers s \<Longrightarrow> reminder_timers (cancel_reminder_timer s i) = reminder_timers s"
  by (simp add: cancel_reminder_timer_def Let_def split: option.splits)

lemma stop_after_cancel: "stop_requested (cancel_reminder_timer s i) i = Inr True"
  by (simp add: stop_requested_def cancel_fields)


lemma ex_state_still_pending: "still_pending ex_state ex_id"
proof -
  have "stop_requested ex_state ex_id = Inr False"
    by (simp add: stop_requested_def ex_state_record ex_data_status)
       (simp add: ex_state_def ex_data_def dict_get_def truthy_def)
  moreover have "durable_status ex_state ex_id = Some ''pending''"
    by (simp add: durable_status_def ex_state_def ex_db_row ex_row_def)
  ultimately show ?thesis by (simp add: still_pending_def)
qed

lemma ex_approved_timers: "reminder_timers ex_approved = {}"
  unfolding ex_approved_def submit_state_def ex_submit
  by (simp add: cancel_reminder_timer_def Let_def ex_state_record ex_data_status)
     (simp add: ex_state_def)

lemma ex_approved_stop: "stop_requested ex_approved ex_id = Inr True"
  by (simp add: stop_requested_def ex_approved_fields)

subsection \<open>Reminders are counted and capped\<close>

text \<open>
  Claim C6.  Whatever the reminder thread finds at its wakes, the reminders it hands to the
  notifier carry the counts 1, 2, 3, ... in this order, and there are at most six of them
  (\<^verbatim>\<open>max_reminders = 6\<close>).  When no decision and no cancellation is ever visible, the
  thread sends exactly six reminders and then ends by itself.  The thread has no write to
  the handler's state or to the database (its model returns no state), so it forces no
  status change.
\<close>

theorem reminders_counted_and_capped:
  "map rem_count (fst (reminder_task lower cfg obs i)) =
     [1 ..< Suc (length (fst (reminder_task lower cfg obs i)))]
   \<and> length (fst (reminder_task lower cfg obs i)) \<le> 6
   \<and> ((\<forall>t. still_pending (obs t) i) \<longrightarrow>
         length (fst (reminder_task lower cfg obs i)) = 6
       \<and> snd (reminder_task lower cfg obs i) = Exited)"
proof -
  have counts: "map rem_count (fst (reminder_task lower cfg obs i)) =
     [1 ..< Suc (length (fst (reminder_task lower cfg obs i)))]
   \<and> length (fst (reminder_task lower cfg obs i)) \<le> 6"
  proof (cases "first_wait obs i [0..<600]")
    case (Some e)
    then show ?thesis by (simp add: reminder_task_def)
  next
    case None
    from reminder_loop_counts[of lower cfg obs i 0 600 None]
    show ?thesis using None by (simp add: reminder_task_def del: upt_Suc)
  qed
  have idle: "length (fst (reminder_task lower cfg obs i)) = 6
       \<and> snd (reminder_task lower cfg obs i) = Exited"
    if p: "\<forall>t. still_pending (obs t) i"
  proof -
    have "stop_requested (obs t) i = Inr False \<and> \<not> db_says_resolved (obs t) i" for t
      using p still_pending_db(1)[of "obs t" i] by (simp add: still_pending_def)
    then have fw: "first_wait obs i [0..<600] = None"
      by (rule first_wait_idle)
    from reminder_loop_idle[of obs i 0 lower cfg 600 None] p
    show ?thesis by (simp add: reminder_task_def fw)
  qed
  show ?thesis using counts idle by blast
qed

theorem reminders_counted_and_capped_witness:
  "(\<forall>t. still_pending ((\<lambda>t. ex_state) t) ex_id)
   \<and> map rem_count (fst (reminder_task ascii_lower ex_cfg (\<lambda>t. ex_state) ex_id)) =
        [1 ..< Suc (length (fst (reminder_task ascii_lower ex_cfg (\<lambda>t. ex_state) ex_id)))]
   \<and> length (fst (reminder_task ascii_lower ex_cfg (\<lambda>t. ex_state) ex_id)) = 6
   \<and> snd (reminder_task ascii_lower ex_cfg (\<lambda>t. ex_state) ex_id) = Exited"
proof -
  have p: "\<forall>t. still_pending ((\<lambda>t. ex_state) t) ex_id"
    by (simp add: ex_state_still_pending)
  show ?thesis
    using reminders_counted_and_capped[of ascii_lower ex_cfg "\<lambda>t. ex_state" ex_id] p
    by blast
qed

subsection \<open>A database failure ends the reminders\<close>

lemma stop_requested_cong:
  "stopped_reminders s = stopped_reminders t \<Longrightarrow> pending_approvals s = pending_approvals t \<Longrightarrow>
   stop_requested s i = stop_requested t i"
  by (simp add: stop_requested_def)

lemma ex_outage_memory:
  "stop_requested ex_outage ex_id = Inr False"
  "stop_requested ex_no_service ex_id = Inr False"
proof -
  have s: "stop_requested ex_state ex_id = Inr False"
    using ex_state_still_pending by (simp add: still_pending_def)
  have "stop_requested ex_outage ex_id = stop_requested ex_state ex_id"
    by (rule stop_requested_cong) (simp_all add: ex_outage_def)
  then show "stop_requested ex_outage ex_id = Inr False" using s by simp
  have "stop_requested ex_no_service ex_id = stop_requested ex_state ex_id"
    by (rule stop_requested_cong) (simp_all add: ex_no_service_def)
  then show "stop_requested ex_no_service ex_id = Inr False" using s by simp
qed

lemma ex_outage_db:
  "\<not> db_says_resolved ex_outage ex_id"
  "\<not> db_says_resolved ex_no_service ex_id"
  "\<not> db_says_resolved ex_state ex_id"
  "check_database ex_outage ex_id ar = DbReturn"
  "check_database ex_no_service ex_id ar = DbContinue ar"
  by (simp_all add: db_says_resolved_def check_database_def ex_outage_def ex_no_service_def
      get_approval_def ex_state_def ex_db_def ex_row_def)

text \<open>
  Claim C8 at its failing inputs.  Nobody decides or cancels the example approval.  When
  the database cannot be reached at the first check of the main loop, \<^const>\<open>get_approval\<close>
  answers \<open>None\<close>, the thread takes the row for deleted and returns: no reminder is ever
  sent, where six are sent without the failure.  When the database service itself is
  missing, the call raises, the \<^verbatim>\<open>except\<close> logs it, and the next statement reads the
  unbound \<^verbatim>\<open>approval_request\<close>: the thread dies of an exception that nothing catches.
\<close>

theorem reminder_thread_ends_on_store_failure:
  "stop_requested (ex_obs_outage 600) ex_id = Inr False
   \<and> reminder_task ascii_lower ex_cfg ex_obs_outage ex_id = ([], Exited)
   \<and> length (fst (reminder_task ascii_lower ex_cfg (\<lambda>t. ex_state) ex_id)) = 6
   \<and> reminder_task ascii_lower ex_cfg (\<lambda>t. ex_no_service) ex_id
        = ([], Crashed (UnboundLocalError ''approval_request''))"
proof -
  have s: "stop_requested ex_state ex_id = Inr False"
    using ex_state_still_pending by (simp add: still_pending_def)
  have o: "stop_requested (ex_obs_outage t) ex_id = Inr False
           \<and> \<not> db_says_resolved (ex_obs_outage t) ex_id" for t
    by (simp add: ex_obs_outage_def s ex_outage_memory ex_outage_db)
  have fw1: "first_wait ex_obs_outage ex_id [0..<600] = None"
    using o by (rule first_wait_idle)
  have l1: "reminder_loop ascii_lower ex_cfg ex_obs_outage ex_id 0 600 None = ([], Exited)"
    by (rule reminder_loop_db_return)
       (simp_all add: ex_obs_outage_def ex_outage_memory ex_outage_db)
  have fw2: "first_wait (\<lambda>t. ex_state) ex_id [0..<600] = None"
    by (rule first_wait_idle) (simp add: s ex_outage_db)
  have l2: "length (fst (reminder_loop ascii_lower ex_cfg (\<lambda>t. ex_state) ex_id 0 600 None)) = 6"
    using reminder_loop_idle[of "\<lambda>t. ex_state" ex_id 0 ascii_lower ex_cfg 600 None]
      ex_state_still_pending by simp
  have fw3: "first_wait (\<lambda>t. ex_no_service) ex_id [0..<600] = None"
    by (rule first_wait_idle) (simp add: ex_outage_memory ex_outage_db)
  have l3: "reminder_loop ascii_lower ex_cfg (\<lambda>t. ex_no_service) ex_id 0 600 None
        = ([], Crashed (UnboundLocalError ''approval_request''))"
    by (rule reminder_loop_unbound) (simp_all add: ex_outage_memory ex_outage_db)
  show ?thesis
    by (simp add: reminder_task_def fw1 l1 fw2 l2 fw3 l3 ex_obs_outage_def ex_outage_memory)
qed

subsection \<open>The sweep of the registry\<close>



lemma evict_fold_rest:
  "stopped_reminders (fold evict ids s) = stopped_reminders s"
  "processing_approvals (fold evict ids s) = processing_approvals s"
  "database_service (fold evict ids s) = database_service s"
  by (induction ids arbitrary: s) (simp_all add: evict_def)


















lemma pai_keeps_stopped:
  "j \<in> stopped_reminders s \<Longrightarrow>
   j \<in> stopped_reminders (fst (process_approval_internal cfg now s i a aid u c))"
  by (simp add: process_approval_internal_def Let_def cancel_fields split: option.splits)

lemma timeout_handler_keeps_stopped:
  "j \<in> stopped_reminders s \<Longrightarrow> j \<in> stopped_reminders (timeout_handler now s i)"
  by (simp add: timeout_handler_def Let_def cancel_fields set_event_fields split: option.splits)

lemma apply_env_keeps_stopped:
  "j \<in> stopped_reminders s \<Longrightarrow> j \<in> stopped_reminders (apply_env cfg act s)"
  by (cases act) (simp_all add: pai_keeps_stopped timeout_handler_keeps_stopped cancel_fields)

lemma run_env_keeps_stopped:
  "j \<in> stopped_reminders s \<Longrightarrow> j \<in> stopped_reminders (run_env cfg acts s)"
  unfolding run_env_def
  by (induction acts arbitrary: s) (simp_all add: apply_env_keeps_stopped)

lemma stopped_stops: "i \<in> stopped_reminders s \<Longrightarrow> stop_requested s i = Inr True"
  by (simp add: stop_requested_def)

lemma reminder_loop_split_stop:
  "stop_requested (obs t) i = Inr True \<Longrightarrow>
   reminder_loop_split lower cfg obs db_obs i c t ar = ([], Exited)"
  by (subst reminder_loop_split.simps) simp

lemma reminder_loop_split_fire_stop:
  "c < 6 \<Longrightarrow> stop_requested (obs t) i = Inr False \<Longrightarrow>
   check_database (db_obs t) i ar = DbContinue (Some row) \<Longrightarrow>
   (if c + 1 < 6 then interval_wait obs i (Suc t) [0..<150] else Inr (Suc t)) = Inl e \<Longrightarrow>
   reminder_loop_split lower cfg obs db_obs i c t ar = ([reminder_of lower cfg i row (c + 1)], e)"
  by (subst reminder_loop_split.simps) (simp add: Let_def reminder_of_def)

lemma reminder_loop_split_same:
  "reminder_loop_split lower cfg obs obs i c t ar = reminder_loop lower cfg obs i c t ar"
proof (induction lower cfg obs i c t ar rule: reminder_loop.induct)
  case (1 lower cfg obs i c t ar)
  show ?case
    apply (subst reminder_loop_split.simps)
    apply (subst reminder_loop.simps)
    using "1.IH"
    by (auto simp: Let_def split: sum.splits db_check.splits option.splits)
qed

lemma first_wait_cong:
  "(\<And>t. t \<in> set ts \<Longrightarrow> obs t = obs' t) \<Longrightarrow> first_wait obs i ts = first_wait obs' i ts"
  by (induction ts) (auto split: sum.splits)

lemma ex_long_record:
  "map_of (pending_approvals ex_state_long) ex_id = Some ex_data_long"
  "map_of ex_data_long ''status'' = Some (PStr ''pending'')"
  "ex_id \<notin> processing_approvals ex_state_long"
  by (simp_all add: ex_state_long_def ex_data_long_def update_conv' ex_data_status)
     (simp add: ex_state_def)

lemma ex_state_long_pending: "still_pending ex_state_long ex_id"
proof -
  have "stop_requested ex_state_long ex_id = Inr False"
    by (simp add: stop_requested_def ex_long_record)
       (simp add: ex_state_long_def ex_state_def ex_data_long_def ex_data_def dict_get_def
          truthy_def update_conv')
  moreover have "durable_status ex_state_long ex_id = Some ''pending''"
    by (simp add: durable_status_def ex_state_long_def ex_state_def ex_db_row ex_row_def)
  ultimately show ?thesis by (simp add: still_pending_def)
qed

lemma ex_approved_long_fields:
  "stopped_reminders ex_approved_long = {ex_id}"
  "database_service ex_approved_long = Some ex_db"
  "field_of ex_approved_long ex_id ''status'' = Some (PStr ''approved'')"
  unfolding ex_approved_long_def submit_state_def pai_pending[OF ex_long_record]
  by (simp_all add: cancel_fields field_of_def decided_fields update_conv')
     (simp_all add: ex_state_long_def ex_state_def)

subsection \<open>No reminder after a transition or a cancellation\<close>

text \<open>
  Claim C5, as the code has it.  \<^const>\<open>cancel_reminder_timer\<close>, a successful decision
  and a timeout of the enforcer each leave the state so that the thread's in-memory
  checks ask it to stop, and the id stays in the stop set through every later
  submission, timeout and cancellation (for any id).  A reminder thread whose in-memory
  checks read such a state sends nothing more and ends, wherever it is: at any round of
  its first wait, at any round of a wait between two reminders, or at the head of its
  main loop, whatever the database says there.  Cancelling a schedule that is already
  cancelled changes nothing.  Cancelling where there is no schedule removes no timer,
  but it does put the id into the stop set.
\<close>

theorem no_reminder_after_stop:
  "stop_requested (cancel_reminder_timer s i) i = Inr True
   \<and> (submit_ok cfg now s i a aid u c \<longrightarrow>
        stop_requested (submit_state cfg now s i a aid u c) i = Inr True)
   \<and> (field_of s i ''status'' = Some (PStr ''pending'') \<longrightarrow>
        stop_requested (timeout_handler now s i) i = Inr True)
   \<and> (stop_requested (obs t) i = Inr True \<longrightarrow>
          first_wait obs i (t # ts) = Some Exited
        \<and> interval_wait obs i t (k # ks) = Inl Exited
        \<and> reminder_loop lower cfg obs i n t ar = ([], Exited)
        \<and> reminder_loop_split lower cfg obs db_obs i n t ar = ([], Exited))
   \<and> (i \<in> stopped_reminders s \<longrightarrow> stop_requested (run_env cfg acts s) i = Inr True)
   \<and> cancel_reminder_timer (cancel_reminder_timer s i) i = cancel_reminder_timer s i
   \<and> (i \<notin> reminder_timers s \<longrightarrow>
        reminder_timers (cancel_reminder_timer s i) = reminder_timers s)
   \<and> stopped_reminders (cancel_reminder_timer s i) = insert i (stopped_reminders s)"
proof -
  have stays: "stop_requested (run_env cfg acts s) i = Inr True"
    if "i \<in> stopped_reminders s"
    using that run_env_keeps_stopped[of i s cfg acts]
    by (simp add: stopped_stops)
  have sub: "stop_requested (submit_state cfg now s i a aid u c) i = Inr True"
    if ok: "submit_ok cfg now s i a aid u c"
  proof -
    from pai_ok_pending[of cfg now s i a aid u c] ok
    have p: "field_of s i ''status'' = Some (PStr ''pending'')" "i \<notin> processing_approvals s"
      by (simp_all add: submit_ok_def)
    then obtain d where d: "map_of (pending_approvals s) i = Some d"
        "map_of d ''status'' = Some (PStr ''pending'')"
      by (auto simp: field_of_def split: option.splits)
    show ?thesis
      by (simp add: submit_state_def pai_pending[OF d p(2)] stop_requested_def cancel_fields)
  qed
  have tmo: "stop_requested (timeout_handler now s i) i = Inr True"
    if p: "field_of s i ''status'' = Some (PStr ''pending'')"
  proof -
    from p obtain d where d: "map_of (pending_approvals s) i = Some d"
        "map_of d ''status'' = Some (PStr ''pending'')"
      by (auto simp: field_of_def split: option.splits)
    show ?thesis
      using d by (simp add: timeout_handler_def Let_def stop_requested_def cancel_fields)
  qed
  show ?thesis
    using sub tmo stays stop_after_cancel[of s i] first_wait_stop[of obs t i ts]
      interval_wait_stop[of obs t i k ks] reminder_loop_stop[of obs t i lower cfg n ar]
      reminder_loop_split_stop[of obs t i lower cfg db_obs n ar]
      cancel_idem[of s i] cancel_no_timer[of i s] cancel_fields(4)[of s i]
    by blast
qed

theorem no_reminder_after_stop_witness:
  "submit_ok ex_cfg ''2023-11-14T22:14:19.500000'' ex_state ex_id ''approved'' ''web_user''
      ''alice'' ''ok''
   \<and> stop_requested ex_approved ex_id = Inr True
   \<and> field_of ex_state ex_id ''status'' = Some (PStr ''pending'')
   \<and> stop_requested (timeout_handler ''2023-11-14T22:14:19.500000'' ex_state ex_id) ex_id
        = Inr True
   \<and> stop_requested ((\<lambda>t::nat. if t < 100 then ex_state else ex_approved) 100) ex_id = Inr True
   \<and> first_wait (\<lambda>t::nat. if t < 100 then ex_state else ex_approved) ex_id [100, 101, 102]
        = Some Exited
   \<and> interval_wait (\<lambda>t::nat. if t < 100 then ex_state else ex_approved) ex_id 100 [7, 8] = Inl Exited
   \<and> reminder_loop ascii_lower ex_cfg (\<lambda>t::nat. if t < 100 then ex_state else ex_approved) ex_id
        2 100 (Some ex_row) = ([], Exited)
   \<and> reminder_loop_split ascii_lower ex_cfg (\<lambda>t::nat. if t < 100 then ex_state else ex_approved)
        (\<lambda>t::nat. ex_state) ex_id 2 100 (Some ex_row) = ([], Exited)
   \<and> ex_id \<in> stopped_reminders ex_approved
   \<and> stop_requested (run_env ex_cfg [TimeoutFires ''2023-11-14T22:14:20.000200'' ex_id]
         ex_approved) ex_id = Inr True
   \<and> ex_id \<notin> reminder_timers ex_approved
   \<and> reminder_timers (cancel_reminder_timer ex_approved ex_id) = reminder_timers ex_approved
   \<and> cancel_reminder_timer (cancel_reminder_timer ex_approved ex_id) ex_id
        = cancel_reminder_timer ex_approved ex_id"
proof -
  have ok: "submit_ok ex_cfg ''2023-11-14T22:14:19.500000'' ex_state ex_id ''approved''
      ''web_user'' ''alice'' ''ok''"
    by (simp add: submit_ok_def ex_submit)
  have st: "stop_requested ((\<lambda>t::nat. if t < 100 then ex_state else ex_approved) 100) ex_id
      = Inr True"
    by (simp add: ex_approved_stop)
  have nt: "ex_id \<notin> reminder_timers ex_approved"
    by (simp add: ex_approved_timers)
  have sp: "ex_id \<in> stopped_reminders ex_approved"
    by (simp add: ex_approved_fields)
  note a = no_reminder_after_stop[where s = ex_state and i = ex_id and cfg = ex_cfg
      and now = "''2023-11-14T22:14:19.500000''" and a = "''approved''"
      and aid = "''web_user''" and u = "''alice''" and c = "''ok''"
      and obs = "\<lambda>t::nat. if t < 100 then ex_state else ex_approved"
      and db_obs = "\<lambda>t::nat. ex_state" and t = 100 and ts = "[101, 102]" and k = 7
      and ks = "[8]" and lower = ascii_lower and n = 2 and ar = "Some ex_row"
      and acts = "[TimeoutFires ''2023-11-14T22:14:20.000200'' ex_id]",
      folded ex_approved_def]
  note b = no_reminder_after_stop[where s = ex_approved and i = ex_id and cfg = ex_cfg
      and now = "''2023-11-14T22:14:19.500000''" and a = "''approved''"
      and aid = "''web_user''" and u = "''alice''" and c = "''ok''"
      and obs = "\<lambda>t::nat. if t < 100 then ex_state else ex_approved"
      and db_obs = "\<lambda>t::nat. ex_state" and t = 100 and ts = "[101, 102]" and k = 7
      and ks = "[8]" and lower = ascii_lower and n = 2 and ar = "Some ex_row"
      and acts = "[TimeoutFires ''2023-11-14T22:14:20.000200'' ex_id]"]
  show ?thesis
    using a b ok st nt sp ex_state_pending by blast
qed

theorem late_reminder_and_cancel_without_schedule:
  "stop_requested (ex_obs_race 600) ex_id = Inr False
   \<and> field_of (ex_db_obs_race 600) ex_id ''status'' = Some (PStr ''approved'')
   \<and> stop_requested (ex_db_obs_race 600) ex_id = Inr True
   \<and> reminder_task_split ascii_lower ex_cfg ex_obs_race ex_db_obs_race ex_id
       = ([reminder_of ascii_lower ex_cfg ex_id ex_row 1], Exited)
   \<and> ex_ghost_id \<notin> reminder_timers ex_state
   \<and> map_of (pending_approvals ex_state) ex_ghost_id = None
   \<and> stopped_reminders ex_state = {}
   \<and> stopped_reminders (cancel_reminder_timer ex_state ex_ghost_id) = {ex_ghost_id}
   \<and> cancel_reminder_timer ex_state ex_ghost_id \<noteq> ex_state"
proof -
  have a: "ex_ghost_id \<notin> reminder_timers ex_state"
    "map_of (pending_approvals ex_state) ex_ghost_id = None"
    "stopped_reminders ex_state = {}"
    by (simp_all add: ex_state_def ex_ghost_id_def ex_id_def)
  have b: "stopped_reminders (cancel_reminder_timer ex_state ex_ghost_id) = {ex_ghost_id}"
    by (simp add: cancel_fields a(3))
  have "stopped_reminders (cancel_reminder_timer ex_state ex_ghost_id)
        \<noteq> stopped_reminders ex_state"
    by (simp add: b a(3))
  then have c: "cancel_reminder_timer ex_state ex_ghost_id \<noteq> ex_state"
    by auto
  have p: "stop_requested ex_state_long ex_id = Inr False"
    using ex_state_long_pending by (simp add: still_pending_def)
  have q: "stop_requested ex_approved_long ex_id = Inr True"
    by (simp add: stopped_stops ex_approved_long_fields)
  have m: "stop_requested (ex_obs_race 600) ex_id = Inr False"
    by (simp add: ex_obs_race_def p)
  have "first_wait ex_obs_race ex_id [0..<600] = first_wait (\<lambda>t. ex_state_long) ex_id [0..<600]"
    by (rule first_wait_cong) (simp add: ex_obs_race_def)
  also have "\<dots> = None"
    by (rule first_wait_idle) (simp add: p still_pending_db(1)[OF ex_state_long_pending])
  finally have fw: "first_wait ex_obs_race ex_id [0..<600] = None" .
  have db: "check_database (ex_db_obs_race 600) ex_id None = DbContinue (Some ex_row)"
    by (simp add: ex_db_obs_race_def check_database_def ex_approved_long_fields ex_db_row
        ex_row_def)
  have "interval_wait ex_obs_race ex_id (Suc 600) (0 # [1..<150]) = Inl Exited"
    by (rule interval_wait_stop) (simp add: ex_obs_race_def q)
  moreover have "[0..<150] = 0 # [1..<150]"
    by (simp add: upt_conv_Cons del: upt_Suc)
  ultimately have iw: "(if (0::nat) + 1 < 6 then interval_wait ex_obs_race ex_id (Suc 600) [0..<150]
      else Inr (Suc 600)) = Inl Exited"
    by simp
  have "(0::nat) < 6" by simp
  then have l: "reminder_loop_split ascii_lower ex_cfg ex_obs_race ex_db_obs_race ex_id 0 600 None
      = ([reminder_of ascii_lower ex_cfg ex_id ex_row (0 + 1)], Exited)"
    using m db iw by (rule reminder_loop_split_fire_stop)
  have r: "reminder_task_split ascii_lower ex_cfg ex_obs_race ex_db_obs_race ex_id
       = ([reminder_of ascii_lower ex_cfg ex_id ex_row 1], Exited)"
    by (simp add: reminder_task_split_def fw l)
  have d: "field_of (ex_db_obs_race 600) ex_id ''status'' = Some (PStr ''approved'')"
    "stop_requested (ex_db_obs_race 600) ex_id = Inr True"
    by (simp_all add: ex_db_obs_race_def ex_approved_long_fields q)
  show ?thesis using a b c m d r by blast
qed


subsection \<open>The web endpoints\<close>

lemma decided_other:
  "k \<noteq> ''approver'' \<Longrightarrow> k \<noteq> ''approver_role'' \<Longrightarrow>
   map_of (decided cfg now a u c d) k = map_of (decided cfg now a u' c d) k"
  by (simp add: decided_def update_conv')

lemma web_decision_pending:
  assumes d: "map_of (pending_approvals s) i = Some d"
             "map_of d ''status'' = Some (PStr ''pending'')"
    and free: "i \<notin> processing_approvals s"
  shows "is_ok (snd (web_decision action dc lower cfg now r i s))"
    and "fst (web_decision action dc lower cfg now r i s) =
      (cancel_reminder_timer (s\<lparr>processing_approvals := insert i (processing_approvals s)\<rparr>) i)
        \<lparr>pending_approvals := AList.update i
            (decided cfg now action (web_approver lower cfg r i s) (web_comment dc r) d)
            (pending_approvals s),
         approval_events := AList.update i True (approval_events s),
         processing_approvals := processing_approvals s - {i}\<rparr>"
  by (simp_all add: web_decision_def Let_def pai_pending[OF d free] is_ok_def)

lemma web_decision_fields:
  assumes d: "map_of (pending_approvals s) i = Some d"
             "map_of d ''status'' = Some (PStr ''pending'')"
    and free: "i \<notin> processing_approvals s"
  shows "field_of (fst (web_decision action dc lower cfg now r i s)) i k =
     map_of (decided cfg now action (web_approver lower cfg r i s) (web_comment dc r) d) k"
  by (simp add: web_decision_pending(2)[OF d free] field_of_def update_conv')


lemma web_approver_supplied:
  "map_of (req_args r) ''approver'' = Some a \<Longrightarrow> a \<noteq> [] \<Longrightarrow> web_approver lower cfg r i s = a"
  by (simp add: web_approver_def)

lemma web_approver_absent:
  "map_of (req_args r) ''approver'' = None \<Longrightarrow> map_of (req_form r) ''approver'' = None \<Longrightarrow>
   map_of (pending_approvals s) i = Some data \<Longrightarrow>
   web_approver lower cfg r i s =
     (case get_project_owners lower cfg (dict_get data ''project'' (PStr ''unknown'')) of
        owner # _ \<Rightarrow> owner
      | [] \<Rightarrow> ''admin'')"
  by (simp add: web_approver_def)

lemma web_decision_rest:
  assumes d: "map_of (pending_approvals s) i = Some d"
             "map_of d ''status'' = Some (PStr ''pending'')"
    and free: "i \<notin> processing_approvals s"
  shows "approval_events (fst (web_decision action dc lower cfg now r i s)) =
           AList.update i True (approval_events s)"
    and "stopped_reminders (fst (web_decision action dc lower cfg now r i s)) =
           insert i (stopped_reminders s)"
    and "processing_approvals (fst (web_decision action dc lower cfg now r i s)) =
           processing_approvals s - {i}"
    and "database_service (fst (web_decision action dc lower cfg now r i s)) =
           database_service s"
    and "reminder_timers (fst (web_decision action dc lower cfg now r i s)) =
           reminder_timers s - {i}"
    and "j \<noteq> i \<Longrightarrow> map_of (pending_approvals (fst (web_decision action dc lower cfg now r i s))) j
           = map_of (pending_approvals s) j"
  using d
  by (simp_all add: web_decision_pending(2)[OF d free] cancel_fields update_conv')
     (simp add: cancel_reminder_timer_def Let_def)

lemma find_first_match:
  "\<forall>y \<in> set ys. \<not> P y \<Longrightarrow> P x \<Longrightarrow> List.find P (ys @ x # zs) = Some x"
  by (induction ys) simp_all

lemma owners_mapped:
  "map_of (project_mapping cfg) p = Some owners \<Longrightarrow>
   get_project_owners lower cfg (PStr p) = owners"
  by (simp add: get_project_owners_def)

lemma owners_fuzzy:
  assumes "map_of (project_mapping cfg) p = None"
    and "project_mapping cfg = ys @ (k, owners) # zs"
    and "\<forall>(k', o') \<in> set ys. \<not> py_in (lower k') (lower p) \<and> \<not> py_in (lower p) (lower k')"
    and "py_in (lower k) (lower p) \<or> py_in (lower p) (lower k)"
  shows "get_project_owners lower cfg (PStr p) = owners"
proof -
  let ?P = "\<lambda>(proj_key, owners). py_in (lower proj_key) (lower p) \<or> py_in (lower p) (lower proj_key)"
  have "\<forall>y \<in> set ys. \<not> ?P y" using assms(3) by auto
  moreover have "?P (k, owners)" using assms(4) by simp
  ultimately have "List.find ?P (ys @ (k, owners) # zs) = Some (k, owners)"
    by (rule find_first_match)
  then have "List.find ?P (project_mapping cfg) = Some (k, owners)"
    by (simp only: assms(2))
  then show ?thesis
    using assms(1) by (simp add: get_project_owners_def)
qed

lemma owners_default:
  assumes "map_of (project_mapping cfg) p = None"
    and "\<forall>(k', o') \<in> set (project_mapping cfg).
           \<not> py_in (lower k') (lower p) \<and> \<not> py_in (lower p) (lower k')"
  shows "get_project_owners lower cfg (PStr p) =
           dict_get (project_mapping cfg) ''default'' (take 2 (map fst (users_config cfg)))"
proof -
  let ?P = "\<lambda>(proj_key, owners). py_in (lower proj_key) (lower p) \<or> py_in (lower p) (lower proj_key)"
  have "List.find ?P (project_mapping cfg) = None"
    using assms(2) by (auto simp: find_None_iff)
  then show ?thesis
    using assms(1) by (simp add: get_project_owners_def)
qed

text \<open>
  Claim C10, as the code has it.  Take a pending approval with no submission marked in
  progress, and either endpoint.  Every request succeeds, whoever sends it and whatever
  approver it names: the status becomes the endpoint's action and the approver is
  recorded as named, with no check against the configured users.  Two requests with the
  same comment leave states that agree in everything but the record's \<^verbatim>\<open>approver\<close> and
  \<^verbatim>\<open>approver_role\<close>.  A request that names no approver is recorded for the first name
  that \<^const>\<open>get_project_owners\<close> returns for the record's project, or for \<open>admin\<close> when
  it returns none.  That list is the project's own entry of the mapping; without one,
  the first entry whose key contains the project's name or is contained in it, case
  ignored; without such an entry, the \<^verbatim>\<open>default\<close> entry; and without that, the first two
  configured users.
\<close>

theorem web_decision_ignores_caller:
  assumes d: "map_of (pending_approvals s) i = Some data"
             "map_of data ''status'' = Some (PStr ''pending'')"
    and free: "i \<notin> processing_approvals s"
    and ep: "(endpoint, action) \<in> {(approve_request, ''approved''), (reject_request, ''rejected'')}"
  shows
    "is_ok (snd (endpoint lower cfg now r i s))
     \<and> field_of (fst (endpoint lower cfg now r i s)) i ''status'' = Some (PStr action)
     \<and> (\<forall>a. map_of (req_args r) ''approver'' = Some a \<and> a \<noteq> [] \<longrightarrow>
           field_of (fst (endpoint lower cfg now r i s)) i ''approver'' = Some (PStr a))
     \<and> (map_of (req_args r) ''approver'' = None \<and> map_of (req_form r) ''approver'' = None \<longrightarrow>
           field_of (fst (endpoint lower cfg now r i s)) i ''approver'' =
             Some (PStr (case get_project_owners lower cfg
                                (dict_get data ''project'' (PStr ''unknown'')) of
                           owner # _ \<Rightarrow> owner
                         | [] \<Rightarrow> ''admin''))
         \<and> (\<forall>p. dict_get data ''project'' (PStr ''unknown'') = PStr p \<longrightarrow>
               (\<forall>owners. map_of (project_mapping cfg) p = Some owners \<longrightarrow>
                  field_of (fst (endpoint lower cfg now r i s)) i ''approver'' =
                    Some (PStr (case owners of owner # _ \<Rightarrow> owner | [] \<Rightarrow> ''admin'')))
             \<and> (\<forall>ys k owners zs.
                    map_of (project_mapping cfg) p = None
                  \<and> project_mapping cfg = ys @ (k, owners) # zs
                  \<and> (\<forall>(k', o') \<in> set ys.
                        \<not> py_in (lower k') (lower p) \<and> \<not> py_in (lower p) (lower k'))
                  \<and> (py_in (lower k) (lower p) \<or> py_in (lower p) (lower k)) \<longrightarrow>
                  field_of (fst (endpoint lower cfg now r i s)) i ''approver'' =
                    Some (PStr (case owners of owner # _ \<Rightarrow> owner | [] \<Rightarrow> ''admin'')))
             \<and> (map_of (project_mapping cfg) p = None
                  \<and> (\<forall>(k', o') \<in> set (project_mapping cfg).
                        \<not> py_in (lower k') (lower p) \<and> \<not> py_in (lower p) (lower k')) \<longrightarrow>
                  field_of (fst (endpoint lower cfg now r i s)) i ''approver'' =
                    Some (PStr (case dict_get (project_mapping cfg) ''default''
                                       (take 2 (map fst (users_config cfg))) of
                                  owner # _ \<Rightarrow> owner
                                | [] \<Rightarrow> ''admin'')))))
     \<and> (map_of (req_args r) ''comment'' = map_of (req_args r') ''comment''
          \<and> map_of (req_form r) ''comment'' = map_of (req_form r') ''comment'' \<longrightarrow>
           is_ok (snd (endpoint lower cfg now r' i s))
         \<and> (\<forall>k. k \<noteq> ''approver'' \<and> k \<noteq> ''approver_role'' \<longrightarrow>
               field_of (fst (endpoint lower cfg now r i s)) i k =
               field_of (fst (endpoint lower cfg now r' i s)) i k)
         \<and> (\<forall>j. j \<noteq> i \<longrightarrow>
               map_of (pending_approvals (fst (endpoint lower cfg now r i s))) j =
               map_of (pending_approvals (fst (endpoint lower cfg now r' i s))) j)
         \<and> approval_events (fst (endpoint lower cfg now r i s)) =
             approval_events (fst (endpoint lower cfg now r' i s))
         \<and> stopped_reminders (fst (endpoint lower cfg now r i s)) =
             stopped_reminders (fst (endpoint lower cfg now r' i s))
         \<and> processing_approvals (fst (endpoint lower cfg now r i s)) =
             processing_approvals (fst (endpoint lower cfg now r' i s))
         \<and> reminder_timers (fst (endpoint lower cfg now r i s)) =
             reminder_timers (fst (endpoint lower cfg now r' i s))
         \<and> database_service (fst (endpoint lower cfg now r i s)) =
             database_service (fst (endpoint lower cfg now r' i s)))"
proof -
  from ep obtain dc where e: "endpoint = web_decision action dc"
    and act: "action \<in> {''approved'', ''rejected''}"
    by (auto simp: approve_request_def reject_request_def)
  note f = web_decision_fields[OF d free, where action = action and dc = dc and lower = lower
      and cfg = cfg and now = now]
  note ok = web_decision_pending(1)[OF d free, where action = action and dc = dc and lower = lower
      and cfg = cfg and now = now]
  note rest = web_decision_rest[OF d free, where action = action and dc = dc and lower = lower
      and cfg = cfg and now = now]
  have c1: "is_ok (snd (endpoint lower cfg now r i s))"
    by (simp add: e ok)
  have st: "field_of (fst (endpoint lower cfg now r i s)) i ''status'' = Some (PStr action)"
    using act by (auto simp: e f decided_fields)
  have named: "\<forall>a. map_of (req_args r) ''approver'' = Some a \<and> a \<noteq> [] \<longrightarrow>
      field_of (fst (endpoint lower cfg now r i s)) i ''approver'' = Some (PStr a)"
    by (simp add: e f decided_fields web_approver_supplied)
  have absent: "field_of (fst (endpoint lower cfg now r i s)) i ''approver'' =
             Some (PStr (case get_project_owners lower cfg
                                (dict_get data ''project'' (PStr ''unknown'')) of
                           owner # _ \<Rightarrow> owner
                         | [] \<Rightarrow> ''admin''))"
    if "map_of (req_args r) ''approver'' = None \<and> map_of (req_form r) ''approver'' = None"
    using that d(1) by (simp add: e f decided_fields web_approver_absent)
  have lookup: "(\<forall>owners. map_of (project_mapping cfg) p = Some owners \<longrightarrow>
                  field_of (fst (endpoint lower cfg now r i s)) i ''approver'' =
                    Some (PStr (case owners of owner # _ \<Rightarrow> owner | [] \<Rightarrow> ''admin'')))
             \<and> (\<forall>ys k owners zs.
                    map_of (project_mapping cfg) p = None
                  \<and> project_mapping cfg = ys @ (k, owners) # zs
                  \<and> (\<forall>(k', o') \<in> set ys.
                        \<not> py_in (lower k') (lower p) \<and> \<not> py_in (lower p) (lower k'))
                  \<and> (py_in (lower k) (lower p) \<or> py_in (lower p) (lower k)) \<longrightarrow>
                  field_of (fst (endpoint lower cfg now r i s)) i ''approver'' =
                    Some (PStr (case owners of owner # _ \<Rightarrow> owner | [] \<Rightarrow> ''admin'')))
             \<and> (map_of (project_mapping cfg) p = None
                  \<and> (\<forall>(k', o') \<in> set (project_mapping cfg).
                        \<not> py_in (lower k') (lower p) \<and> \<not> py_in (lower p) (lower k')) \<longrightarrow>
                  field_of (fst (endpoint lower cfg now r i s)) i ''approver'' =
                    Some (PStr (case dict_get (project_mapping cfg) ''default''
                                       (take 2 (map fst (users_config cfg))) of
                                  owner # _ \<Rightarrow> owner
                                | [] \<Rightarrow> ''admin'')))"
    if n: "map_of (req_args r) ''approver'' = None \<and> map_of (req_form r) ''approver'' = None"
      and p: "dict_get data ''project'' (PStr ''unknown'') = PStr p" for p
  proof (intro conjI allI impI)
    fix owners assume "map_of (project_mapping cfg) p = Some owners"
    then show "field_of (fst (endpoint lower cfg now r i s)) i ''approver'' =
                    Some (PStr (case owners of owner # _ \<Rightarrow> owner | [] \<Rightarrow> ''admin''))"
      using absent[OF n] by (simp add: p owners_mapped)
  next
    fix ys k owners zs
    assume h: "map_of (project_mapping cfg) p = None
                  \<and> project_mapping cfg = ys @ (k, owners) # zs
                  \<and> (\<forall>(k', o') \<in> set ys.
                        \<not> py_in (lower k') (lower p) \<and> \<not> py_in (lower p) (lower k'))
                  \<and> (py_in (lower k) (lower p) \<or> py_in (lower p) (lower k))"
    have "get_project_owners lower cfg (PStr p) = owners"
      using h by (intro owners_fuzzy[where ys = ys and k = k and zs = zs]) blast+
    then show "field_of (fst (endpoint lower cfg now r i s)) i ''approver'' =
                    Some (PStr (case owners of owner # _ \<Rightarrow> owner | [] \<Rightarrow> ''admin''))"
      using absent[OF n] by (simp add: p)
  next
    assume h: "map_of (project_mapping cfg) p = None
                  \<and> (\<forall>(k', o') \<in> set (project_mapping cfg).
                        \<not> py_in (lower k') (lower p) \<and> \<not> py_in (lower p) (lower k'))"
    have "get_project_owners lower cfg (PStr p) =
           dict_get (project_mapping cfg) ''default'' (take 2 (map fst (users_config cfg)))"
      using h by (intro owners_default) blast+
    then show "field_of (fst (endpoint lower cfg now r i s)) i ''approver'' =
                    Some (PStr (case dict_get (project_mapping cfg) ''default''
                                       (take 2 (map fst (users_config cfg))) of
                                  owner # _ \<Rightarrow> owner
                                | [] \<Rightarrow> ''admin''))"
      using absent[OF n] by (simp add: p)
  qed
  have same: "field_of (fst (endpoint lower cfg now r i s)) i k =
               field_of (fst (endpoint lower cfg now r' i s)) i k"
    if c: "map_of (req_args r) ''comment'' = map_of (req_args r') ''comment''
          \<and> map_of (req_form r) ''comment'' = map_of (req_form r') ''comment''"
      and k: "k \<noteq> ''approver'' \<and> k \<noteq> ''approver_role''" for k
  proof -
    have "web_comment dc r = web_comment dc r'"
      using c by (simp add: web_comment_def dict_get_def split: option.splits)
    then show ?thesis
      using k decided_other[of k cfg now action "web_approver lower cfg r i s"
          "web_comment dc r'" data "web_approver lower cfg r' i s"]
      by (simp add: e f)
  qed
  have others: "map_of (pending_approvals (fst (endpoint lower cfg now r i s))) j =
               map_of (pending_approvals (fst (endpoint lower cfg now r' i s))) j"
    if "j \<noteq> i" for j
    using that by (simp add: e rest(6))
  have two: "is_ok (snd (endpoint lower cfg now r' i s))
         \<and> (\<forall>k. k \<noteq> ''approver'' \<and> k \<noteq> ''approver_role'' \<longrightarrow>
               field_of (fst (endpoint lower cfg now r i s)) i k =
               field_of (fst (endpoint lower cfg now r' i s)) i k)
         \<and> (\<forall>j. j \<noteq> i \<longrightarrow>
               map_of (pending_approvals (fst (endpoint lower cfg now r i s))) j =
               map_of (pending_approvals (fst (endpoint lower cfg now r' i s))) j)
         \<and> approval_events (fst (endpoint lower cfg now r i s)) =
             approval_events (fst (endpoint lower cfg now r' i s))
         \<and> stopped_reminders (fst (endpoint lower cfg now r i s)) =
             stopped_reminders (fst (endpoint lower cfg now r' i s))
         \<and> processing_approvals (fst (endpoint lower cfg now r i s)) =
             processing_approvals (fst (endpoint lower cfg now r' i s))
         \<and> reminder_timers (fst (endpoint lower cfg now r i s)) =
             reminder_timers (fst (endpoint lower cfg now r' i s))
         \<and> database_service (fst (endpoint lower cfg now r i s)) =
             database_service (fst (endpoint lower cfg now r' i s))"
    if c: "map_of (req_args r) ''comment'' = map_of (req_args r') ''comment''
          \<and> map_of (req_form r) ''comment'' = map_of (req_form r') ''comment''"
    using same[OF c] others ok rest(1-5)
    unfolding e by (intro conjI impI allI) simp_all
  show ?thesis
    apply (intro conjI)
        apply (rule c1)
       apply (rule st)
      apply (rule named)
     apply (rule impI)
     apply (rule conjI)
      apply (erule absent)
     apply (rule allI)
     apply (rule impI)
     apply (erule (1) lookup)
    apply (rule impI)
    apply (erule two)
    done
qed


lemma ex_owners:
  "get_project_owners ascii_lower ex_cfg (dict_get ex_data ''project'' (PStr ''unknown''))
     = [''alice'', ''bob'']"
  by (simp add: get_project_owners_def dict_get_def ex_data_def ex_cfg_def)

lemma ex_project: "dict_get ex_data ''project'' (PStr ''unknown'') = PStr ''shop''"
  by (simp add: dict_get_def ex_data_def)

lemma ex_requests:
  "map_of (req_args ex_request_mallory) ''approver'' = Some ''mallory''"
  "map_of (req_args ex_request_anonymous) ''approver'' = None"
  "map_of (req_form ex_request_anonymous) ''approver'' = None"
  "map_of (req_args ex_request_mallory) ''comment'' = map_of (req_args ex_request_alice) ''comment''"
  "map_of (req_form ex_request_mallory) ''comment'' = map_of (req_form ex_request_alice) ''comment''"
  by (simp_all add: ex_request_mallory_def ex_request_anonymous_def ex_request_alice_def)

lemma ex_unmapped_record:
  "map_of (pending_approvals ex_state_unmapped) ex_id = Some ex_data_unmapped"
  "map_of ex_data_unmapped ''status'' = Some (PStr ''pending'')"
  "ex_id \<notin> processing_approvals ex_state_unmapped"
  "dict_get ex_data_unmapped ''project'' (PStr ''unknown'') = PStr ''shop''"
  by (simp_all add: ex_state_unmapped_def ex_data_unmapped_def update_conv' ex_data_status
        dict_get_def)
     (simp_all add: ex_state_def ex_data_def)

lemma ex_unmapped_lookup:
  "map_of (project_mapping ex_cfg_unmapped) ''shop'' = None"
  "\<forall>(k', o') \<in> set (project_mapping ex_cfg_unmapped).
      \<not> py_in (ascii_lower k') (ascii_lower ''shop'') \<and> \<not> py_in (ascii_lower ''shop'') (ascii_lower k')"
  "dict_get (project_mapping ex_cfg_unmapped) ''default''
      (take 2 (map fst (users_config ex_cfg_unmapped))) = [''mallory'', ''alice'']"
  by (simp_all add: ex_cfg_unmapped_def ascii_lower_def dict_get_def)

lemma ex_fuzzy_record:
  "map_of (pending_approvals ex_state_fuzzy) ex_id = Some ex_data_fuzzy"
  "map_of ex_data_fuzzy ''status'' = Some (PStr ''pending'')"
  "ex_id \<notin> processing_approvals ex_state_fuzzy"
  "dict_get ex_data_fuzzy ''project'' (PStr ''unknown'') = PStr ''shop''"
  by (simp_all add: ex_state_fuzzy_def ex_data_fuzzy_def update_conv' ex_data_status
        dict_get_def)
     (simp_all add: ex_state_def ex_data_def)

lemma ex_fuzzy_lookup:
  "map_of (project_mapping ex_cfg_fuzzy) ''shop'' = None"
  "project_mapping ex_cfg_fuzzy = [(''payments'', [''alice''])] @ (''Shop-Backend'', [''bob'']) # []"
  "\<not> py_in (ascii_lower ''payments'') (ascii_lower ''shop'')"
  "\<not> py_in (ascii_lower ''shop'') (ascii_lower ''payments'')"
  "py_in (ascii_lower ''shop'') (ascii_lower ''Shop-Backend'')"
  by (simp_all add: ex_cfg_fuzzy_def ascii_lower_def)

lemma ex_owners_lookup:
  "map_of (project_mapping ex_cfg_owners) ''shop'' = Some [''alice'', ''bob'']"
  "take 2 (map fst (users_config ex_cfg_owners)) = [''mallory'', ''alice'']"
  by (simp_all add: ex_cfg_owners_def)

lemma ex_unmapped_default:
  "map_of (project_mapping ex_cfg_unmapped) ''default'' = None"
  by (simp add: ex_cfg_unmapped_def)

theorem web_decision_ignores_caller_witness:
  "map_of (pending_approvals ex_state) ex_id = Some ex_data
   \<and> map_of ex_data ''status'' = Some (PStr ''pending'')
   \<and> ex_id \<notin> processing_approvals ex_state
   \<and> get_user_info ex_cfg ''mallory'' = None
   \<and> map_of (req_args ex_request_mallory) ''approver'' = Some ''mallory''
   \<and> is_ok (snd (approve_request ascii_lower ex_cfg ''2023-11-14T22:14:00.000000''
               ex_request_mallory ex_id ex_state))
   \<and> field_of (fst (approve_request ascii_lower ex_cfg ''2023-11-14T22:14:00.000000''
               ex_request_mallory ex_id ex_state)) ex_id ''status'' = Some (PStr ''approved'')
   \<and> field_of (fst (approve_request ascii_lower ex_cfg ''2023-11-14T22:14:00.000000''
               ex_request_mallory ex_id ex_state)) ex_id ''approver'' = Some (PStr ''mallory'')
   \<and> is_ok (snd (approve_request ascii_lower ex_cfg ''2023-11-14T22:14:00.000000''
               ex_request_alice ex_id ex_state))
   \<and> approval_events (fst (approve_request ascii_lower ex_cfg ''2023-11-14T22:14:00.000000''
               ex_request_mallory ex_id ex_state))
      = approval_events (fst (approve_request ascii_lower ex_cfg ''2023-11-14T22:14:00.000000''
               ex_request_alice ex_id ex_state))
   \<and> map_of (req_args ex_request_anonymous) ''approver'' = None
   \<and> map_of (req_form ex_request_anonymous) ''approver'' = None
   \<and> dict_get ex_data ''project'' (PStr ''unknown'') = PStr ''shop''
   \<and> map_of (project_mapping ex_cfg_owners) ''shop'' = Some [''alice'', ''bob'']
   \<and> take 2 (map fst (users_config ex_cfg_owners)) = [''mallory'', ''alice'']
   \<and> field_of (fst (reject_request ascii_lower ex_cfg_owners ''2023-11-14T22:14:00.000000''
               ex_request_anonymous ex_id ex_state)) ex_id ''status'' = Some (PStr ''rejected'')
   \<and> field_of (fst (reject_request ascii_lower ex_cfg_owners ''2023-11-14T22:14:00.000000''
               ex_request_anonymous ex_id ex_state)) ex_id ''approver'' = Some (PStr ''alice'')
   \<and> map_of (project_mapping ex_cfg_fuzzy) ''shop'' = None
   \<and> project_mapping ex_cfg_fuzzy
        = [(''payments'', [''alice''])] @ (''Shop-Backend'', [''bob'']) # []
   \<and> \<not> py_in (ascii_lower ''payments'') (ascii_lower ''shop'')
   \<and> \<not> py_in (ascii_lower ''shop'') (ascii_lower ''payments'')
   \<and> py_in (ascii_lower ''shop'') (ascii_lower ''Shop-Backend'')
   \<and> field_of (fst (approve_request ascii_lower ex_cfg_fuzzy ''2023-11-14T22:14:00.000000''
               ex_request_anonymous ex_id ex_state_fuzzy)) ex_id ''approver'' = Some (PStr ''bob'')
   \<and> map_of (project_mapping ex_cfg_unmapped) ''shop'' = None
   \<and> map_of (project_mapping ex_cfg_unmapped) ''default'' = None
   \<and> field_of (fst (approve_request ascii_lower ex_cfg_unmapped ''2023-11-14T22:14:00.000000''
               ex_request_anonymous ex_id ex_state_unmapped)) ex_id ''approver''
        = Some (PStr ''mallory'')"
proof -
  have unknown: "get_user_info ex_cfg ''mallory'' = None"
    by (simp add: get_user_info_def ex_cfg_def)
  have ea: "(approve_request, ''approved'')
      \<in> {(approve_request, ''approved''), (reject_request, ''rejected'')}" by simp
  have er: "(reject_request, ''rejected'')
      \<in> {(approve_request, ''approved''), (reject_request, ''rejected'')}" by simp
  note a = web_decision_ignores_caller[OF ex_state_record ex_data_status ex_state_free ea,
      where lower = ascii_lower and cfg = ex_cfg and now = "''2023-11-14T22:14:00.000000''"
        and r = ex_request_mallory and r' = ex_request_alice]
  note b = web_decision_ignores_caller[OF ex_state_record ex_data_status ex_state_free er,
      where lower = ascii_lower and cfg = ex_cfg_owners
        and now = "''2023-11-14T22:14:00.000000''"
        and r = ex_request_anonymous and r' = ex_request_anonymous]
  note c = web_decision_ignores_caller[OF ex_fuzzy_record(1,2,3) ea,
      where lower = ascii_lower and cfg = ex_cfg_fuzzy
        and now = "''2023-11-14T22:14:00.000000''"
        and r = ex_request_anonymous and r' = ex_request_anonymous]
  note d = web_decision_ignores_caller[OF ex_unmapped_record(1,2,3) ea,
      where lower = ascii_lower and cfg = ex_cfg_unmapped
        and now = "''2023-11-14T22:14:00.000000''"
        and r = ex_request_anonymous and r' = ex_request_anonymous]
  note a1 = a[THEN conjunct1]
  note a2 = a[THEN conjunct2, THEN conjunct1]
  note a3 = a[THEN conjunct2, THEN conjunct2, THEN conjunct1, rule_format, of "''mallory''"]
  note a5 = a[THEN conjunct2, THEN conjunct2, THEN conjunct2, THEN conjunct2, rule_format]
  have cm: "map_of (req_args ex_request_mallory) ''comment'' =
           map_of (req_args ex_request_alice) ''comment''
         \<and> map_of (req_form ex_request_mallory) ''comment'' =
           map_of (req_form ex_request_alice) ''comment''"
    using ex_requests(4,5) by simp
  have m: "map_of (req_args ex_request_mallory) ''approver'' = Some ''mallory'' \<and> ''mallory'' \<noteq> []"
    using ex_requests(1) by simp
  have n: "map_of (req_args ex_request_anonymous) ''approver'' = None
         \<and> map_of (req_form ex_request_anonymous) ''approver'' = None"
    using ex_requests(2,3) by simp
  note a5' = a5[OF cm]
  note b2 = b[THEN conjunct2, THEN conjunct1]
  note b4 = b[THEN conjunct2, THEN conjunct2, THEN conjunct2, THEN conjunct1, THEN mp, OF n,
      THEN conjunct2, THEN spec, THEN mp, OF ex_project]
  note b_owner = b4[THEN conjunct1, THEN spec, THEN mp, OF ex_owners_lookup(1),
      unfolded list.case]
  note c4 = c[THEN conjunct2, THEN conjunct2, THEN conjunct2, THEN conjunct1, THEN mp, OF n,
      THEN conjunct2, THEN spec, THEN mp, OF ex_fuzzy_record(4)]
  have ch: "map_of (project_mapping ex_cfg_fuzzy) ''shop'' = None
      \<and> project_mapping ex_cfg_fuzzy = [(''payments'', [''alice''])] @ (''Shop-Backend'', [''bob'']) # []
      \<and> (\<forall>(k', o') \<in> set [(''payments'', [''alice''])].
            \<not> py_in (ascii_lower k') (ascii_lower ''shop'')
          \<and> \<not> py_in (ascii_lower ''shop'') (ascii_lower k'))
      \<and> (py_in (ascii_lower ''Shop-Backend'') (ascii_lower ''shop'')
          \<or> py_in (ascii_lower ''shop'') (ascii_lower ''Shop-Backend''))"
    using ex_fuzzy_lookup by simp
  note c_owner = c4[THEN conjunct2, THEN conjunct1, THEN spec, THEN spec, THEN spec, THEN spec,
      THEN mp, OF ch, unfolded list.case]
  note d4 = d[THEN conjunct2, THEN conjunct2, THEN conjunct2, THEN conjunct1, THEN mp, OF n,
      THEN conjunct2, THEN spec, THEN mp, OF ex_unmapped_record(4)]
  have dh: "map_of (project_mapping ex_cfg_unmapped) ''shop'' = None
      \<and> (\<forall>(k', o') \<in> set (project_mapping ex_cfg_unmapped).
            \<not> py_in (ascii_lower k') (ascii_lower ''shop'')
          \<and> \<not> py_in (ascii_lower ''shop'') (ascii_lower k'))"
    using ex_unmapped_lookup(1,2) by simp
  note d_owner = d4[THEN conjunct2, THEN conjunct2, THEN mp, OF dh,
      unfolded ex_unmapped_lookup(3) list.case]
  show ?thesis
    apply (intro conjI)
    apply (rule ex_state_record)
    apply (rule ex_data_status)
    apply (rule ex_state_free)
    apply (rule unknown)
    apply (rule ex_requests(1))
    apply (rule a1)
    apply (rule a2)
    apply (rule a3[OF m])
    apply (rule a5'[THEN conjunct1])
    apply (rule a5'[THEN conjunct2, THEN conjunct2, THEN conjunct2, THEN conjunct1])
    apply (rule ex_requests(2))
    apply (rule ex_requests(3))
    apply (rule ex_project)
    apply (rule ex_owners_lookup(1))
    apply (rule ex_owners_lookup(2))
    apply (rule b2)
    apply (rule b_owner)
    apply (rule ex_fuzzy_lookup(1))
    apply (rule ex_fuzzy_lookup(2))
    apply (rule ex_fuzzy_lookup(3))
    apply (rule ex_fuzzy_lookup(4))
    apply (rule ex_fuzzy_lookup(5))
    apply (rule c_owner)
    apply (rule ex_unmapped_lookup(1))
    apply (rule ex_unmapped_default)
    apply (rule d_owner)
    done
qed

theorem anonymous_decision_recorded_for_first_user:
  "map_of (pending_approvals ex_state_unmapped) ex_id = Some ex_data_unmapped
   \<and> map_of ex_data_unmapped ''status'' = Some (PStr ''pending'')
   \<and> map_of ex_data_unmapped ''project'' = Some (PStr ''shop'')
   \<and> map_of (project_mapping ex_cfg_unmapped) ''shop'' = None
   \<and> get_project_owners ascii_lower ex_cfg_unmapped (PStr ''shop'') = [''mallory'', ''alice'']
   \<and> map_of (req_args ex_request_anonymous) ''approver'' = None
   \<and> map_of (req_form ex_request_anonymous) ''approver'' = None
   \<and> is_ok (snd (approve_request ascii_lower ex_cfg_unmapped ''2023-11-14T22:14:00.000000''
               ex_request_anonymous ex_id ex_state_unmapped))
   \<and> field_of (fst (approve_request ascii_lower ex_cfg_unmapped ''2023-11-14T22:14:00.000000''
               ex_request_anonymous ex_id ex_state_unmapped)) ex_id ''approver''
        = Some (PStr ''mallory'')
   \<and> field_of (fst (approve_request ascii_lower ex_cfg_unmapped ''2023-11-14T22:14:00.000000''
               ex_request_anonymous ex_id ex_state_unmapped)) ex_id ''status''
        = Some (PStr ''approved'')"
proof -
  have p: "map_of ex_data_unmapped ''project'' = Some (PStr ''shop'')"
    by (simp add: ex_data_unmapped_def update_conv') (simp add: ex_data_def)
  have o: "get_project_owners ascii_lower ex_cfg_unmapped (PStr ''shop'') = [''mallory'', ''alice'']"
    using owners_default[OF ex_unmapped_lookup(1) ex_unmapped_lookup(2)]
    by (simp add: ex_unmapped_lookup(3))
  have w: "web_approver ascii_lower ex_cfg_unmapped ex_request_anonymous ex_id ex_state_unmapped
      = ''mallory''"
    using web_approver_absent[OF ex_requests(2) ex_requests(3) ex_unmapped_record(1),
        of ascii_lower ex_cfg_unmapped]
    by (simp add: ex_unmapped_record(4) o)
  note f = web_decision_fields[OF ex_unmapped_record(1,2,3), where action = "''approved''"
      and dc = web_approve_comment and lower = ascii_lower and cfg = ex_cfg_unmapped
      and now = "''2023-11-14T22:14:00.000000''" and r = ex_request_anonymous]
  note ok = web_decision_pending(1)[OF ex_unmapped_record(1,2,3), where action = "''approved''"
      and dc = web_approve_comment and lower = ascii_lower and cfg = ex_cfg_unmapped
      and now = "''2023-11-14T22:14:00.000000''" and r = ex_request_anonymous]
  have a: "field_of (fst (approve_request ascii_lower ex_cfg_unmapped ''2023-11-14T22:14:00.000000''
               ex_request_anonymous ex_id ex_state_unmapped)) ex_id ''approver''
        = Some (PStr ''mallory'')"
    by (simp add: approve_request_def f decided_fields w)
  have s: "field_of (fst (approve_request ascii_lower ex_cfg_unmapped ''2023-11-14T22:14:00.000000''
               ex_request_anonymous ex_id ex_state_unmapped)) ex_id ''status''
        = Some (PStr ''approved'')"
    by (simp add: approve_request_def f decided_fields)
  have k: "is_ok (snd (approve_request ascii_lower ex_cfg_unmapped ''2023-11-14T22:14:00.000000''
               ex_request_anonymous ex_id ex_state_unmapped))"
    by (simp add: approve_request_def ok)
  show ?thesis
    using ex_unmapped_record(1,2) p ex_unmapped_lookup(1) o ex_requests(2,3) k a s by blast
qed

end
